theory Spec2Isabelle
  imports Complex_Main
begin

section \<open>JavaScript strings and numbers used by the processors\<close>

text \<open>
  A JavaScript string is modelled as a \<^typ>\<open>string\<close>, one \<^typ>\<open>char\<close> per code unit in
  the range 0..255.  Page numbers and page counts are JavaScript numbers holding integers;
  they are modelled as \<^typ>\<open>int\<close>.  \<open>NaN\<close> is the value \<^const>\<open>None\<close>.  A digit string too
  long for a double is rounded by \<open>parseInt\<close>, to a number that compares with 1 and with a
  page count below \<open>2^53\<close> as the exact integer does, and only these comparisons are made
  with it.
\<close>

text \<open>The white space and line terminators that \<open>String.prototype.trim\<close> and the
  numeric parser skip, among the code units 0..255: TAB, LF, VT, FF, CR, SP, NBSP.\<close>

definition is_ws :: "char \<Rightarrow> bool" where
  "is_ws c = (of_char c \<in> {9, 10, 11, 12, 13, 32, 160 :: nat})"

definition trim :: "string \<Rightarrow> string" where
  "trim s = rev (dropWhile is_ws (rev (dropWhile is_ws s)))"

text \<open>\<open>s.split(d)\<close> for a one-character separator: it always returns at least one piece,
  and \<open>"".split(",")\<close> is \<open>[""]\<close>.\<close>

fun split_char :: "char \<Rightarrow> string \<Rightarrow> string list" where
  "split_char d [] = [[]]"
| "split_char d (c # cs) =
     (let r = split_char d cs in if c = d then [] # r else (c # hd r) # tl r)"

definition is_digit :: "char \<Rightarrow> bool" where
  "is_digit c = (48 \<le> (of_char c :: nat) \<and> (of_char c :: nat) \<le> 57)"

definition digits_val :: "string \<Rightarrow> int" where
  "digits_val ds = foldl (\<lambda>a c. 10 * a + (int (of_char c) - 48)) 0 ds"

text \<open>\<open>parseInt(s, 10)\<close>: leading white space is skipped, one sign is accepted, then the
  longest prefix of decimal digits is read; without a digit the result is \<open>NaN\<close>.\<close>

definition parseInt :: "string \<Rightarrow> int option" where
  "parseInt s =
     (let s1 = dropWhile is_ws s;
          sgn_rest = (case s1 of
                        [] \<Rightarrow> (1, [])
                      | c # r \<Rightarrow> if c = CHR ''-'' then (- 1, r)
                                 else if c = CHR ''+'' then (1, r) else (1, s1));
          ds = takeWhile is_digit (snd sgn_rest)
      in if ds = [] then None else Some (fst sgn_rest * digits_val ds))"

text \<open>A JavaScript \<open>Set\<close> of numbers: a duplicate-free list in insertion order.\<close>

definition set_add :: "int \<Rightarrow> int list \<Rightarrow> int list" where
  "set_add x xs = (if x \<in> set xs then xs else xs @ [x])"

section \<open>Page-range resolution (rasterize.ts, \<open>parsePageRange\<close>)\<close>

text \<open>The inner loop \<open>for (let i = Math.max(1, start); i <= Math.min(totalPages, end); i++)
  pages.add(i)\<close>, started at \<open>i\<close> with upper bound \<open>hi\<close>.\<close>

function add_range :: "int \<Rightarrow> int \<Rightarrow> int list \<Rightarrow> int list" where
  "add_range i hi pages = (if i \<le> hi then add_range (i + 1) hi (set_add i pages) else pages)"
  by pat_completeness auto
termination
  by (relation "measure (\<lambda>(i, hi, pages). nat (hi + 1 - i))") auto

declare add_range.simps [simp del]

text \<open>\<open>part.split('-').map(n => parseInt(n.trim(), 10))\<close>.\<close>

definition range_endpoints :: "string \<Rightarrow> int option list" where
  "range_endpoints part = map (\<lambda>n. parseInt (trim n)) (split_char CHR ''-'' part)"

text \<open>The destructuring \<open>const [start, end] = ...\<close> reads the elements 0 and 1; an
  element that is missing is \<open>undefined\<close>, which \<open>isNaN\<close> treats like \<open>NaN\<close>.\<close>

definition elem :: "int option list \<Rightarrow> nat \<Rightarrow> int option" where
  "elem xs k = (if k < length xs then xs ! k else None)"

text \<open>One iteration of \<open>for (const part of parts)\<close>, on the set built so far.\<close>

definition add_part :: "int \<Rightarrow> string \<Rightarrow> int list \<Rightarrow> int list" where
  "add_part totalPages part pages =
     (if CHR ''-'' \<in> set part then
        (let start = elem (range_endpoints part) 0;
             endv = elem (range_endpoints part) 1
         in if start \<noteq> None \<and> endv \<noteq> None
            then add_range (max 1 (the start)) (min totalPages (the endv)) pages
            else pages)
      else
        (case parseInt part of
           Some pageNum \<Rightarrow>
             if pageNum \<ge> 1 \<and> pageNum \<le> totalPages then set_add pageNum pages else pages
         | None \<Rightarrow> pages))"

text \<open>\<open>rangeStr.split(',').map(p => p.trim())\<close>.\<close>

definition range_parts :: "string \<Rightarrow> string list" where
  "range_parts rangeStr = map trim (split_char CHR '','' rangeStr)"

text \<open>\<open>Array.from({ length: totalPages }, (_, i) => i + 1)\<close> is \<open>[1..totalPages]\<close>, and
  \<open>Array.from(pages).sort((a, b) => a - b)\<close> sorts the set's elements in ascending order.
  The source has no \<open>throw\<close> and calls nothing that throws on a string, so the model has no
  error value.\<close>

definition parsePageRange :: "string \<Rightarrow> int \<Rightarrow> int list" where
  "parsePageRange rangeStr totalPages =
     (if rangeStr = [] \<or> trim rangeStr = [] then [1..totalPages]
      else sort (fold (add_part totalPages) (range_parts rangeStr) []))"

subsection \<open>The kinds of token the specification names\<close>

text \<open>In the words of the specification a token is numeric when it is a page number, written
  with decimal digits only, or two such numbers joined by one dash; the white space around
  either number is set aside, as the code trims it.\<close>

definition endpoint_texts :: "string \<Rightarrow> string list" where
  "endpoint_texts part = map trim (split_char CHR ''-'' part)"

definition integer_text :: "string \<Rightarrow> bool" where
  "integer_text s = (s \<noteq> [] \<and> list_all is_digit s)"

definition numeric_token :: "string \<Rightarrow> bool" where
  "numeric_token part =
     (if CHR ''-'' \<in> set part
      then length (endpoint_texts part) = 2 \<and> list_all integer_text (endpoint_texts part)
      else integer_text part)"

text \<open>A string starts with an integer when, after its leading white space and one optional
  sign, a digit follows; whatever comes after the digits does not matter.  A token is
  unreadable when no integer starts it or, for a token with a dash, when no integer starts
  one of its first two pieces.  Both notions are stated on the characters of the token.\<close>

definition starts_with_integer :: "string \<Rightarrow> bool" where
  "starts_with_integer s =
     (case dropWhile is_ws s of
        [] \<Rightarrow> False
      | c # r \<Rightarrow> if c = CHR ''-'' \<or> c = CHR ''+'' then r \<noteq> [] \<and> is_digit (hd r) else is_digit c)"

definition unreadable_token :: "string \<Rightarrow> bool" where
  "unreadable_token part =
     (if CHR ''-'' \<in> set part
      then \<not> list_all starts_with_integer (take 2 (endpoint_texts part))
      else \<not> starts_with_integer part)"

text \<open>A token is a reversed range when an integer is read at the start of each of its first
  two pieces and the end read is below the start read.\<close>

definition reversed_token :: "string \<Rightarrow> bool" where
  "reversed_token part =
     (CHR ''-'' \<in> set part \<and>
      elem (range_endpoints part) 0 \<noteq> None \<and> elem (range_endpoints part) 1 \<noteq> None \<and>
      the (elem (range_endpoints part) 1) < the (elem (range_endpoints part) 0))"

text \<open>A token is entirely out of bounds when the integers read in it name no page of
  \<open>1..totalPages\<close>: a single number outside the interval, or a range that ends before page 1
  or starts after the last page.\<close>

definition out_of_bounds_token :: "int \<Rightarrow> string \<Rightarrow> bool" where
  "out_of_bounds_token totalPages part =
     (if CHR ''-'' \<in> set part
      then elem (range_endpoints part) 0 \<noteq> None \<and> elem (range_endpoints part) 1 \<noteq> None \<and>
           (the (elem (range_endpoints part) 1) < 1 \<or>
            totalPages < the (elem (range_endpoints part) 0))
      else parseInt part \<noteq> None \<and> (the (parseInt part) < 1 \<or> totalPages < the (parseInt part)))"

text \<open>The tokens that contribute no page: unreadable, reversed, or entirely out of
  bounds.\<close>

definition dropped_token :: "int \<Rightarrow> string \<Rightarrow> bool" where
  "dropped_token totalPages part =
     (unreadable_token part \<or> reversed_token part \<or> out_of_bounds_token totalPages part)"

section \<open>The processor contract\<close>

text \<open>Modelled from the spec: the types of \<open>types/pdf\<close> (\<open>PDFErrorCode\<close>, \<open>ProcessInput\<close>,
  \<open>ProcessOutput\<close>) are not among the sources.  The error codes are the members of the
  enumeration the specification lists.\<close>

datatype PDFErrorCode =
    INVALID_OPTIONS | FILE_TYPE_INVALID | INVALID_PAGE_RANGE | PROCESSING_CANCELLED
  | PROCESSING_FAILED | WORKER_FAILED | PDF_ENCRYPTED

text \<open>What awaiting an external call gives: it throws an \<open>Error\<close> with a message, or it
  returns a value.\<close>

datatype 'a outcome = Throws string | Returns 'a

text \<open>A browser \<open>File\<close>: its \<open>name\<close> and its \<open>type\<close> (the MIME type).\<close>

record File =
  name :: string
  mime :: string

text \<open>Modelled from the spec: the input of a call, an ordered list of files and the
  options of the processor.\<close>

record 'o ProcessInput =
  files :: "File list"
  options :: 'o

text \<open>Modelled from the spec: the envelope, a success with its result or an error with its
  code.  The file name and the metadata of a success and the message and detail of an error
  are not modelled.\<close>

datatype 'r ProcessOutput = SuccessOutput 'r | ErrorOutput PDFErrorCode

text \<open>Modelled from the spec: the progress state of \<open>BasePDFProcessor\<close> (\<open>processor.ts\<close> is
  not among the sources).  It holds the current percentage, a number in \<open>[0,100]\<close>.
  \<open>reported\<close> lists the percentages the caller's progress callback has received, oldest
  first.  The cancellation flag is written from outside the call; what each poll of
  \<open>checkCancelled\<close> reads is part of the environment of a call.\<close>

record ProgressState =
  progress :: rat
  reported :: "rat list"

text \<open>Modelled from the spec: \<open>BasePDFProcessor.reset\<close>, which puts the progress state back
  to 0 at the start of a call.\<close>

definition reset :: ProgressState where
  "reset = \<lparr>progress = 0, reported = []\<rparr>"

text \<open>Modelled from the spec: \<open>BasePDFProcessor.updateProgress\<close>, which stores the percentage,
  kept within \<open>[0,100]\<close>, and hands it to the caller's progress callback.\<close>

definition updateProgress :: "rat \<Rightarrow> ProgressState \<Rightarrow> ProgressState" where
  "updateProgress p st =
     (let v = min 100 (max 0 p) in st\<lparr>progress := v, reported := reported st @ [v]\<rparr>)"

subsection \<open>String tests of the validation code\<close>

fun starts_with :: "string \<Rightarrow> string \<Rightarrow> bool" where
  "starts_with s [] = True"
| "starts_with [] (p # ps) = False"
| "starts_with (c # cs) (p # ps) = (c = p \<and> starts_with cs ps)"

text \<open>\<open>s.includes(p)\<close>.\<close>

fun str_includes :: "string \<Rightarrow> string \<Rightarrow> bool" where
  "str_includes [] p = (p = [])"
| "str_includes (c # cs) p = (starts_with (c # cs) p \<or> str_includes cs p)"

definition endsWith :: "string \<Rightarrow> string \<Rightarrow> bool" where
  "endsWith s suffix = starts_with (rev s) (rev suffix)"

text \<open>\<open>s.toLowerCase()\<close> on the code units 0..255: A--Z and the capital letters of
  Latin-1 move up by 32.\<close>

definition lower_char :: "char \<Rightarrow> char" where
  "lower_char c =
     (let n = (of_char c :: nat)
      in if (65 \<le> n \<and> n \<le> 90) \<or> (192 \<le> n \<and> n \<le> 214) \<or> (216 \<le> n \<and> n \<le> 222)
         then char_of (n + 32) else c)"

definition toLowerCase :: "string \<Rightarrow> string" where
  "toLowerCase s = map lower_char s"

text \<open>The test \<open>file.type.includes('pdf') || file.name.toLowerCase().endsWith('.pdf')\<close>,
  whose negation guards the \<open>FILE_TYPE_INVALID\<close> return of the processors that check the
  file type.\<close>

definition looks_like_pdf :: "File \<Rightarrow> bool" where
  "looks_like_pdf file = (str_includes (mime file) ''pdf'' \<or> endsWith (toLowerCase (name file)) ''.pdf'')"

section \<open>The rasterize processor (rasterize.ts)\<close>

datatype RasterizeFormat = PNG | JPEG | WEBP | PDF

text \<open>The options after the defaults have been merged in.  \<open>pageRange\<close> may be
  \<open>undefined\<close> (\<^const>\<open>None\<close>); \<open>quality\<close> and \<open>backgroundColor\<close> only reach the canvas
  and are not modelled.\<close>

record RasterizePDFOptions =
  dpi :: rat
  format :: RasterizeFormat
  pageRange :: "string option"

text \<open>What the external collaborators do during one call: loading pdf.js; reading the file
  and opening the document, which gives \<open>numPages\<close>; the cancellation flag as read after
  loading and at the head of iteration \<open>i\<close>; rendering a page at a scale (\<open>getPage\<close>,
  \<open>getViewport\<close>, the canvas, \<open>render\<close> and the encoding of the canvas), which gives the
  viewport's width and height; importing jsPDF; importing JSZip and generating the archive.\<close>

record rasterize_env =
  r_loadPdfjs :: "unit outcome"
  r_getDocument :: "int outcome"
  r_cancelled_loaded :: bool
  r_cancelled_at :: "nat \<Rightarrow> bool"
  r_render :: "int \<Rightarrow> rat \<Rightarrow> (rat \<times> rat) outcome"
  r_import_jspdf :: "unit outcome"
  r_zip :: "unit outcome"

text \<open>A page of the assembled document: the source page whose image fills it, its size in
  millimetres and its orientation.\<close>

record pdf_page =
  pg_source :: int
  pg_widthMm :: rat
  pg_heightMm :: rat
  pg_landscape :: bool

datatype rasterize_result =
    ImageBlob int
  | ZipBlob "int list"
  | PdfBlob "pdf_page list"

text \<open>The \<open>catch\<close> at the outermost scope of \<open>process\<close>.\<close>

definition rasterize_catch :: "string \<Rightarrow> rasterize_result ProcessOutput" where
  "rasterize_catch message =
     (if str_includes message ''encrypt'' then ErrorOutput PDF_ENCRYPTED
      else ErrorOutput PROCESSING_FAILED)"

text \<open>The loop of the image output mode, at iteration \<open>i\<close> with the pages still to visit;
  \<open>n\<close> is \<open>pagesToRender.length\<close> and \<open>images\<close> holds the page numbers pushed so far.  A
  page whose rendering throws is logged and skipped.\<close>

fun image_loop ::
  "rasterize_env \<Rightarrow> rat \<Rightarrow> nat \<Rightarrow> int list \<Rightarrow> nat \<Rightarrow> int list \<Rightarrow> ProgressState
     \<Rightarrow> ProgressState \<times> (PDFErrorCode + int list)" where
  "image_loop env scale n [] i images st = (st, Inr images)"
| "image_loop env scale n (pageNum # rest) i images st =
     (if r_cancelled_at env i then (st, Inl PROCESSING_CANCELLED)
      else
        let st = updateProgress (15 + (of_nat i / of_nat n) * 75) st
        in case r_render env pageNum scale of
             Returns viewport \<Rightarrow> image_loop env scale n rest (i + 1) (images @ [pageNum]) st
           | Throws pageError \<Rightarrow> image_loop env scale n rest (i + 1) images st)"

text \<open>The loop of the PDF output mode.  \<open>pdfOutput\<close> is \<open>null\<close> (\<^const>\<open>None\<close>) or the
  jsPDF document, a list of pages.  The document is created in the iteration \<open>i === 0\<close>; in
  any other iteration \<open>pdfOutput!.addPage\<close> is called, which on \<open>null\<close> throws a
  \<open>TypeError\<close> inside the \<open>try\<close> of the page, so that page is logged and skipped too.\<close>

fun pdf_loop ::
  "rasterize_env \<Rightarrow> RasterizePDFOptions \<Rightarrow> nat \<Rightarrow> int list \<Rightarrow> nat \<Rightarrow> pdf_page list option
     \<Rightarrow> ProgressState \<Rightarrow> ProgressState \<times> (PDFErrorCode + pdf_page list option)" where
  "pdf_loop env opts n [] i pdfOutput st = (st, Inr pdfOutput)"
| "pdf_loop env opts n (pageNum # rest) i pdfOutput st =
     (if r_cancelled_at env i then (st, Inl PROCESSING_CANCELLED)
      else
        let st = updateProgress (15 + (of_nat i / of_nat n) * 75) st
        in case r_render env pageNum (dpi opts / 72) of
             Throws pageError \<Rightarrow> pdf_loop env opts n rest (i + 1) pdfOutput st
           | Returns viewport \<Rightarrow>
               let widthMm = (fst viewport / dpi opts) * (254 / 10);
                   heightMm = (snd viewport / dpi opts) * (254 / 10);
                   page = \<lparr>pg_source = pageNum, pg_widthMm = widthMm, pg_heightMm = heightMm,
                           pg_landscape = (widthMm > heightMm)\<rparr>
               in if i = 0 then pdf_loop env opts n rest (i + 1) (Some [page]) st
                  else (case pdfOutput of
                          None \<Rightarrow> pdf_loop env opts n rest (i + 1) None st
                        | Some doc \<Rightarrow> pdf_loop env opts n rest (i + 1) (Some (doc @ [page])) st))"

definition rasterize_pdf_mode ::
  "rasterize_env \<Rightarrow> RasterizePDFOptions \<Rightarrow> int list \<Rightarrow> ProgressState
     \<Rightarrow> ProgressState \<times> rasterize_result ProcessOutput" where
  "rasterize_pdf_mode env opts pagesToRender st =
     (case r_import_jspdf env of
        Throws m \<Rightarrow> (st, rasterize_catch m)
      | Returns u \<Rightarrow>
          (case pdf_loop env opts (length pagesToRender) pagesToRender 0 None st of
             (st, Inl code) \<Rightarrow> (st, ErrorOutput code)
           | (st, Inr None) \<Rightarrow> (st, ErrorOutput PROCESSING_FAILED)
           | (st, Inr (Some doc)) \<Rightarrow>
               (updateProgress 100 (updateProgress 92 st), SuccessOutput (PdfBlob doc))))"

definition rasterize_image_mode ::
  "rasterize_env \<Rightarrow> RasterizePDFOptions \<Rightarrow> int list \<Rightarrow> ProgressState
     \<Rightarrow> ProgressState \<times> rasterize_result ProcessOutput" where
  "rasterize_image_mode env opts pagesToRender st =
     (case image_loop env (dpi opts / 72) (length pagesToRender) pagesToRender 0 [] st of
        (st, Inl code) \<Rightarrow> (st, ErrorOutput code)
      | (st, Inr images) \<Rightarrow>
          if length images = 0 then (st, ErrorOutput PROCESSING_FAILED)
          else
            let st = updateProgress 92 st
            in if length images = 1
               then (updateProgress 100 st, SuccessOutput (ImageBlob (images ! 0)))
               else (case r_zip env of
                       Throws m \<Rightarrow> (st, rasterize_catch m)
                     | Returns u \<Rightarrow> (updateProgress 100 st, SuccessOutput (ZipBlob images))))"

text \<open>\<open>RasterizePDFProcessor.process\<close>: the progress state at the end of the call and the
  envelope.\<close>

definition rasterize_process ::
  "rasterize_env \<Rightarrow> RasterizePDFOptions ProcessInput
     \<Rightarrow> ProgressState \<times> rasterize_result ProcessOutput" where
  "rasterize_process env input =
     (let st = reset; opts = options input
      in if length (files input) \<noteq> 1 then (st, ErrorOutput INVALID_OPTIONS)
         else
           let st = updateProgress 5 st
           in case r_loadPdfjs env of
                Throws m \<Rightarrow> (st, rasterize_catch m)
              | Returns u \<Rightarrow>
                  let st = updateProgress 10 st
                  in case r_getDocument env of
                       Throws m \<Rightarrow> (st, rasterize_catch m)
                     | Returns totalPages \<Rightarrow>
                         if r_cancelled_loaded env then (st, ErrorOutput PROCESSING_CANCELLED)
                         else
                           let st = updateProgress 10 st;
                               pagesToRender =
                                 parsePageRange (case pageRange opts of None \<Rightarrow> [] | Some r \<Rightarrow> r)
                                   totalPages
                           in if length pagesToRender = 0 then (st, ErrorOutput INVALID_OPTIONS)
                              else
                                let st = updateProgress 15 st
                                in if format opts = PDF
                                   then rasterize_pdf_mode env opts pagesToRender st
                                   else rasterize_image_mode env opts pagesToRender st)"

section \<open>The PDF-to-image processor\<close>

text \<open>The options after the defaults have been merged in.  The numbers of columns and rows
  are non-negative integers (the tool's form keeps them between 1 and 10); the format, the
  quality, the scale and the background colour only reach the canvas and are not
  modelled.\<close>

record PageLayoutOptions =
  columns :: nat
  rows :: nat
  skipFirstPage :: bool

record PDFToImageOptions =
  pages :: "int list"
  pageLayout :: PageLayoutOptions

text \<open>What the external collaborators do during one call: loading pdf.js; the cancellation
  flag as read after it; opening the document, which gives \<open>numPages\<close>; the cancellation
  flag at the head of iteration \<open>i\<close> of the rendering loop; \<open>renderPageToImage\<close> of a page
  and \<open>renderGridPagesToImage\<close> of a group of pages.\<close>

record image_env =
  i_loadPdfjs :: "unit outcome"
  i_cancelled_loaded :: bool
  i_getDocument :: "int outcome"
  i_cancelled_at :: "nat \<Rightarrow> bool"
  i_renderPageToImage :: "int \<Rightarrow> unit outcome"
  i_renderGridPagesToImage :: "int list \<Rightarrow> unit outcome"

text \<open>The result: one image, or the list of images.  An image is named by the pages drawn
  on it.\<close>

datatype image_result = OneImage "int list" | Images "int list list"

text \<open>\<open>imageOptions.pages.length > 0 ? imageOptions.pages.filter(p => p >= 1 && p <=
  totalPages) : Array.from({ length: totalPages }, (_, i) => i + 1)\<close>.\<close>

definition pagesToConvert_of :: "int list \<Rightarrow> int \<Rightarrow> int list" where
  "pagesToConvert_of requested totalPages =
     (if length requested > 0 then filter (\<lambda>p. p \<ge> 1 \<and> p \<le> totalPages) requested
      else [1..totalPages])"

text \<open>The loop of the single page mode.  A page whose rendering throws ends the call with
  \<open>PROCESSING_FAILED\<close>.\<close>

fun single_loop ::
  "image_env \<Rightarrow> nat \<Rightarrow> int list \<Rightarrow> nat \<Rightarrow> int list list \<Rightarrow> ProgressState
     \<Rightarrow> ProgressState \<times> (PDFErrorCode + int list list)" where
  "single_loop env n [] i images st = (st, Inr images)"
| "single_loop env n (pageNum # rest) i images st =
     (if i_cancelled_at env i then (st, Inl PROCESSING_CANCELLED)
      else
        let st = updateProgress (15 + of_nat i * (80 / of_nat n)) st
        in case i_renderPageToImage env pageNum of
             Returns imageBlob \<Rightarrow> single_loop env n rest (i + 1) (images @ [[pageNum]]) st
           | Throws error \<Rightarrow> (st, Inl PROCESSING_FAILED))"

text \<open>The inner loop \<open>for (let j = 0; j < pagesPerImage && (i + j) < pagesToConvert.length;
  j++) group.push(pagesToConvert[i + j])\<close>.\<close>

function group_of :: "int list \<Rightarrow> nat \<Rightarrow> nat \<Rightarrow> nat \<Rightarrow> int list \<Rightarrow> int list" where
  "group_of pagesToConvert pagesPerImage i j grp =
     (if j < pagesPerImage \<and> i + j < length pagesToConvert
      then group_of pagesToConvert pagesPerImage i (j + 1) (grp @ [pagesToConvert ! (i + j)])
      else grp)"
  by pat_completeness auto
termination
  by (relation "measure (\<lambda>(pagesToConvert, pagesPerImage, i, j, grp).
        length pagesToConvert - (i + j))") auto

declare group_of.simps [simp del]

text \<open>The outer loop \<open>for (let i = startIndex; i < pagesToConvert.length; i +=
  pagesPerImage)\<close>.  With \<open>pagesPerImage = 0\<close> it does not end; not returning is the value
  \<^const>\<open>None\<close>.\<close>

partial_function (option) group_loop ::
  "int list \<Rightarrow> nat \<Rightarrow> nat \<Rightarrow> int list list \<Rightarrow> int list list option" where
  "group_loop pagesToConvert pagesPerImage i pageGroups =
     (if i < length pagesToConvert
      then group_loop pagesToConvert pagesPerImage (i + pagesPerImage)
             (pageGroups @ [group_of pagesToConvert pagesPerImage i 0 []])
      else Some pageGroups)"

declare group_loop.simps [code]

text \<open>The construction of \<open>pageGroups\<close> in the grid layout mode.\<close>

definition build_pageGroups :: "int list \<Rightarrow> nat \<Rightarrow> bool \<Rightarrow> int list list option" where
  "build_pageGroups pagesToConvert pagesPerImage skipFirst =
     (if skipFirst \<and> length pagesToConvert > 0
      then group_loop pagesToConvert pagesPerImage 1 [[pagesToConvert ! 0]]
      else group_loop pagesToConvert pagesPerImage 0 [])"

text \<open>The loop over the groups.  A group of one page is rendered as a single page, any
  other group as a grid; a rendering that throws ends the call with
  \<open>PROCESSING_FAILED\<close>.\<close>

fun grid_loop ::
  "image_env \<Rightarrow> nat \<Rightarrow> int list list \<Rightarrow> nat \<Rightarrow> int list list \<Rightarrow> ProgressState
     \<Rightarrow> ProgressState \<times> (PDFErrorCode + int list list)" where
  "grid_loop env n [] i images st = (st, Inr images)"
| "grid_loop env n (grp # rest) i images st =
     (if i_cancelled_at env i then (st, Inl PROCESSING_CANCELLED)
      else
        let st = updateProgress (15 + of_nat i * (80 / of_nat n)) st
        in if length grp = 1
           then (case i_renderPageToImage env (grp ! 0) of
                   Returns imageBlob \<Rightarrow> grid_loop env n rest (i + 1) (images @ [grp]) st
                 | Throws error \<Rightarrow> (st, Inl PROCESSING_FAILED))
           else (case i_renderGridPagesToImage env grp of
                   Returns imageBlob \<Rightarrow> grid_loop env n rest (i + 1) (images @ [grp]) st
                 | Throws error \<Rightarrow> (st, Inl PROCESSING_FAILED)))"

text \<open>The end of \<open>process\<close>, after the loops.\<close>

definition image_finish ::
  "ProgressState \<times> (PDFErrorCode + int list list) \<Rightarrow> ProgressState \<times> image_result ProcessOutput"
  where
  "image_finish r =
     (case r of
        (st, Inl code) \<Rightarrow> (st, ErrorOutput code)
      | (st, Inr images) \<Rightarrow>
          let st = updateProgress 95 st
          in if length images = 1 then (updateProgress 100 st, SuccessOutput (OneImage (images ! 0)))
             else (updateProgress 100 st, SuccessOutput (Images images)))"

text \<open>\<open>PDFToImageProcessor.process\<close>; \<^const>\<open>None\<close> when the call does not return.\<close>

definition image_process ::
  "image_env \<Rightarrow> PDFToImageOptions ProcessInput
     \<Rightarrow> (ProgressState \<times> image_result ProcessOutput) option" where
  "image_process env input =
     (let st = reset; opts = options input
      in if length (files input) \<noteq> 1 then Some (st, ErrorOutput INVALID_OPTIONS)
         else if \<not> looks_like_pdf (files input ! 0) then Some (st, ErrorOutput FILE_TYPE_INVALID)
         else
           let st = updateProgress 5 st
           in case i_loadPdfjs env of
                Throws m \<Rightarrow> Some (st, ErrorOutput PROCESSING_FAILED)
              | Returns u \<Rightarrow>
                  if i_cancelled_loaded env then Some (st, ErrorOutput PROCESSING_CANCELLED)
                  else
                    let st = updateProgress 10 st
                    in case i_getDocument env of
                         Throws m \<Rightarrow> Some (st, ErrorOutput PROCESSING_FAILED)
                       | Returns totalPages \<Rightarrow>
                           let pagesToConvert = pagesToConvert_of (pages opts) totalPages
                           in if length pagesToConvert = 0
                              then Some (st, ErrorOutput INVALID_PAGE_RANGE)
                              else
                                let st = updateProgress 15 st;
                                    layout = pageLayout opts;
                                    pagesPerImage = columns layout * rows layout
                                in if pagesPerImage = 1
                                   then Some (image_finish
                                          (single_loop env (length pagesToConvert) pagesToConvert 0 [] st))
                                   else
                                     (case build_pageGroups pagesToConvert pagesPerImage
                                             (skipFirstPage layout) of
                                        None \<Rightarrow> None
                                      | Some pageGroups \<Rightarrow>
                                          Some (image_finish
                                            (grid_loop env (length pageGroups) pageGroups 0 [] st))))"

section \<open>The watermark processor\<close>

text \<open>The option \<open>pages\<close>: an array of page numbers, or one of the words \<open>'all'\<close>,
  \<open>'odd'\<close>, \<open>'even'\<close>.\<close>

datatype page_choice = PageArray "int list" | PageWord string

text \<open>\<open>Array.from({ length: totalPages }, (_, i) => i)\<close> is \<open>[0..totalPages - 1]\<close>; the
  indices are not negative, so \<open>%\<close> is \<open>mod\<close> on them.\<close>

definition getPageIndices :: "page_choice \<Rightarrow> int \<Rightarrow> int list" where
  "getPageIndices choice totalPages =
     (case choice of
        PageArray ps \<Rightarrow> filter (\<lambda>p. p \<ge> 0 \<and> p < totalPages) (map (\<lambda>p. p - 1) ps)
      | PageWord w \<Rightarrow>
          if w = ''odd'' then filter (\<lambda>i. i mod 2 = 0) [0..totalPages - 1]
          else if w = ''even'' then filter (\<lambda>i. i mod 2 = 1) [0..totalPages - 1]
          else [0..totalPages - 1])"

text \<open>What the external collaborators do during one call: loading pdf-lib; loading the
  document and embedding the font, which gives the page count; the cancellation flag at the
  head of iteration \<open>i\<close>; getting the page at an index and drawing on it; saving.\<close>

record watermark_env =
  w_loadPdfLib :: "unit outcome"
  w_load :: "int outcome"
  w_cancelled_at :: "nat \<Rightarrow> bool"
  w_draw :: "int \<Rightarrow> unit outcome"
  w_save :: "unit outcome"

text \<open>The loop over \<open>pagesToProcess\<close>; \<open>marked\<close> holds the indices drawn on so far.  The
  loop has no \<open>try\<close> of its own: whatever throws reaches the \<open>catch\<close> of \<open>process\<close>.\<close>

fun watermark_loop ::
  "watermark_env \<Rightarrow> nat \<Rightarrow> int list \<Rightarrow> nat \<Rightarrow> int list \<Rightarrow> ProgressState
     \<Rightarrow> ProgressState \<times> (PDFErrorCode + int list)" where
  "watermark_loop env n [] i marked st = (st, Inr marked)"
| "watermark_loop env n (pageIndex # rest) i marked st =
     (if w_cancelled_at env i then (st, Inl PROCESSING_CANCELLED)
      else (case w_draw env pageIndex of
              Throws error \<Rightarrow> (st, Inl PROCESSING_FAILED)
            | Returns u \<Rightarrow>
                watermark_loop env n rest (i + 1) (marked @ [pageIndex])
                  (updateProgress (30 + (60 * (of_nat i + 1) / of_nat n)) st)))"

text \<open>\<open>WatermarkProcessor.process\<close>; a success carries the indices of the pages drawn
  on.\<close>

definition watermark_process ::
  "watermark_env \<Rightarrow> page_choice ProcessInput \<Rightarrow> ProgressState \<times> int list ProcessOutput" where
  "watermark_process env input =
     (let st = reset
      in if length (files input) \<noteq> 1 then (st, ErrorOutput INVALID_OPTIONS)
         else
           let st = updateProgress 10 st
           in case w_loadPdfLib env of
                Throws m \<Rightarrow> (st, ErrorOutput PROCESSING_FAILED)
              | Returns u \<Rightarrow>
                  let st = updateProgress 20 st
                  in case w_load env of
                       Throws m \<Rightarrow> (st, ErrorOutput PROCESSING_FAILED)
                     | Returns totalPages \<Rightarrow>
                         let st = updateProgress 30 st;
                             pagesToProcess = getPageIndices (options input) totalPages
                         in case watermark_loop env (length pagesToProcess) pagesToProcess 0 [] st of
                              (st, Inl code) \<Rightarrow> (st, ErrorOutput code)
                            | (st, Inr marked) \<Rightarrow>
                                let st = updateProgress 95 st
                                in case w_save env of
                                     Throws m \<Rightarrow> (st, ErrorOutput PROCESSING_FAILED)
                                   | Returns u \<Rightarrow> (updateProgress 100 st, SuccessOutput marked))"

section \<open>The PDF-to-DOCX processor and its worker\<close>

subsection \<open>The worker (pdf-to-docx.worker.js)\<close>

text \<open>The messages the worker posts: \<open>{id, type: 'init-complete'}\<close>, \<open>{type: 'status',
  message}\<close>, \<open>{type: 'progress', message, percent}\<close>, \<open>{id, type: 'convert-complete',
  result}\<close> and \<open>{id, type: 'error', error}\<close>.  The texts of status and progress messages
  and the converted document are not modelled.\<close>

datatype worker_msg =
    InitComplete string
  | Status
  | Progress "rat option"
  | ConvertComplete string
  | ErrorMsg string string

text \<open>The requests it receives, with their \<open>id\<close>.\<close>

datatype worker_request = Init string | Convert string

text \<open>The worker's own state: whether \<open>pyodide\<close> is set, the \<open>initPromise\<close> (not yet
  created, resolved or rejected), and whether the Python helper functions have been
  defined.\<close>

record worker_state =
  pyodide :: bool
  initPromise :: "unit outcome option"
  helpers :: bool

definition new_worker_state :: worker_state where
  "new_worker_state = \<lparr>pyodide = False, initPromise = None, helpers = False\<rparr>"

text \<open>What the Python environment does inside the worker: loading Pyodide, installing the
  dependencies, installing pdf2docx, defining the helper functions; and for a conversion,
  reading the file, writing the input, \<open>pdf_convert()\<close> (the page count) and reading the
  result.\<close>

record worker_env =
  k_loadPyodide :: "unit outcome"
  k_install :: "unit outcome"
  k_install_pdf2docx :: "unit outcome"
  k_define_helpers :: "unit outcome"
  k_arrayBuffer :: "unit outcome"
  k_write_input :: "unit outcome"
  k_pdf_convert :: "nat outcome"
  k_read_result :: "unit outcome"

text \<open>\<open>init()\<close>: the messages posted, the state afterwards and how the promise settles.\<close>

definition worker_init ::
  "worker_env \<Rightarrow> worker_state \<Rightarrow> worker_msg list \<times> worker_state \<times> unit outcome" where
  "worker_init env ws =
     (if pyodide ws then ([], ws, Returns ())
      else
        case k_loadPyodide env of
          Throws m \<Rightarrow> ([Status], ws, Throws m)
        | Returns u \<Rightarrow>
            let ws = ws\<lparr>pyodide := True\<rparr>
            in case k_install env of
                 Throws m \<Rightarrow> ([Status, Status], ws, Throws m)
               | Returns u \<Rightarrow>
                   (case k_install_pdf2docx env of
                      Throws m \<Rightarrow> ([Status, Status, Status], ws, Throws m)
                    | Returns u \<Rightarrow>
                        (case k_define_helpers env of
                           Throws m \<Rightarrow> ([Status, Status, Status, Status], ws, Throws m)
                         | Returns u \<Rightarrow>
                             ([Status, Status, Status, Status], ws\<lparr>helpers := True\<rparr>,
                              Returns ()))))"

text \<open>\<open>if (!initPromise) initPromise = init(); await initPromise;\<close>\<close>

definition await_init ::
  "worker_env \<Rightarrow> worker_state \<Rightarrow> worker_msg list \<times> worker_state \<times> unit outcome" where
  "await_init env ws =
     (case initPromise ws of
        Some r \<Rightarrow> ([], ws, r)
      | None \<Rightarrow>
          (case worker_init env ws of
             (posted, ws, r) \<Rightarrow> (posted, ws\<lparr>initPromise := Some r\<rparr>, r)))"

text \<open>The steps of a conversion after the initialisation, with the messages posted.  A
  helper function that was never defined cannot be called: the call throws.\<close>

definition worker_convert :: "worker_env \<Rightarrow> worker_state \<Rightarrow> string \<Rightarrow> worker_msg list" where
  "worker_convert env ws rid =
     (case k_arrayBuffer env of
        Throws m \<Rightarrow> [ErrorMsg rid m]
      | Returns u \<Rightarrow>
          (case (if helpers ws then k_write_input env
                 else Throws ''writeInput is not a function'') of
             Throws m \<Rightarrow> [Progress (Some 5), ErrorMsg rid m]
           | Returns u \<Rightarrow>
               (case k_pdf_convert env of
                  Throws m \<Rightarrow> [Progress (Some 5), Progress (Some 10), ErrorMsg rid m]
                | Returns totalPages \<Rightarrow>
                    (case k_read_result env of
                       Throws m \<Rightarrow>
                         [Progress (Some 5), Progress (Some 10), Progress (Some 85),
                          Progress (Some 90), ErrorMsg rid m]
                     | Returns u \<Rightarrow>
                         [Progress (Some 5), Progress (Some 10), Progress (Some 85),
                          Progress (Some 90), ConvertComplete rid]))))"

text \<open>\<open>self.onmessage\<close>: the messages posted in answer to a request, and the worker's
  state afterwards.  Whatever throws is answered by an \<open>error\<close> message with the request's
  \<open>id\<close>.\<close>

definition worker_onmessage ::
  "worker_env \<Rightarrow> worker_state \<Rightarrow> worker_request \<Rightarrow> worker_msg list \<times> worker_state" where
  "worker_onmessage env ws request =
     (case request of
        Init rid \<Rightarrow>
          (case await_init env ws of
             (posted, ws, Returns u) \<Rightarrow> (posted @ [InitComplete rid], ws)
           | (posted, ws, Throws m) \<Rightarrow> (posted @ [ErrorMsg rid m], ws))
      | Convert rid \<Rightarrow>
          (case (if \<not> pyodide ws then await_init env ws else ([], ws, Returns ())) of
             (posted, ws, Throws m) \<Rightarrow> (posted @ [ErrorMsg rid m], ws)
           | (posted, ws, Returns u) \<Rightarrow> (posted @ worker_convert env ws rid, ws)))"

subsection \<open>The processor (pdf-to-docx.ts)\<close>

text \<open>What the worker object delivers to its listeners: a \<open>message\<close> event, or an
  \<open>error\<close> event of the channel itself.\<close>

datatype worker_event = MessageEvent worker_msg | ErrorEvent string

text \<open>The fields of the processor that outlive a call: the worker (\<open>null\<close> is
  \<^const>\<open>None\<close>) and \<open>workerReady\<close>.\<close>

record docx_state =
  worker :: "worker_state option"
  workerReady :: bool

text \<open>The environment of one call: constructing the \<open>Worker\<close>; the Python environment
  inside it; the two ids made from the clock; a failure of the channel while a request is
  being answered, after so many messages and with its text; the cancellation flag as read
  after the initialisation and after the conversion.\<close>

record docx_env =
  d_new_Worker :: "unit outcome"
  d_python :: worker_env
  d_initId :: string
  d_msgId :: string
  d_init_failure :: "(nat \<times> string) option"
  d_convert_failure :: "(nat \<times> string) option"
  d_cancelled_ready :: bool
  d_cancelled_converted :: bool

definition deliver :: "(nat \<times> string) option \<Rightarrow> worker_msg list \<Rightarrow> worker_event list" where
  "deliver failure posted =
     (case failure of
        None \<Rightarrow> map MessageEvent posted
      | Some (k, m) \<Rightarrow> map MessageEvent (take k posted) @ [ErrorEvent m])"

text \<open>The listeners of \<open>initWorker\<close> over the events that arrive, until the promise settles;
  \<^const>\<open>None\<close> when it never does.  The result is the progress state, \<open>workerReady\<close>
  and how the promise settled.\<close>

fun init_events ::
  "worker_event list \<Rightarrow> ProgressState \<Rightarrow> bool \<Rightarrow> (ProgressState \<times> bool \<times> unit outcome) option"
  where
  "init_events [] st ready = None"
| "init_events (ErrorEvent m # rest) st ready = Some (st, ready, Throws ''Worker connection failed'')"
| "init_events (MessageEvent (InitComplete rid) # rest) st ready = Some (st, True, Returns ())"
| "init_events (MessageEvent Status # rest) st ready = init_events rest (updateProgress 0 st) ready"
| "init_events (MessageEvent (ErrorMsg rid e) # rest) st ready =
     Some (st, ready, Throws (if e = [] then ''Worker initialization failed'' else e))"
| "init_events (MessageEvent (Progress percent) # rest) st ready = init_events rest st ready"
| "init_events (MessageEvent (ConvertComplete rid) # rest) st ready = init_events rest st ready"

text \<open>\<open>initWorker\<close> never removes its \<open>message\<close> listener, so it also runs, first, on
  every message that arrives during a conversion; its promise being settled, it can only
  report a status at 0 and set \<open>workerReady\<close>.\<close>

fun init_listener :: "worker_msg \<Rightarrow> ProgressState \<Rightarrow> bool \<Rightarrow> ProgressState \<times> bool" where
  "init_listener (InitComplete rid) st ready = (st, True)"
| "init_listener Status st ready = (updateProgress 0 st, ready)"
| "init_listener (Progress percent) st ready = (st, ready)"
| "init_listener (ConvertComplete rid) st ready = (st, ready)"
| "init_listener (ErrorMsg rid e) st ready = (st, ready)"

text \<open>The listeners of the conversion promise (\<open>handleMessage\<close>, \<open>handleError\<close>) over the
  events that arrive, until the promise settles.\<close>

fun convert_events ::
  "string \<Rightarrow> worker_event list \<Rightarrow> ProgressState \<Rightarrow> bool
     \<Rightarrow> (ProgressState \<times> bool \<times> unit outcome) option" where
  "convert_events msgId [] st ready = None"
| "convert_events msgId (ErrorEvent m # rest) st ready =
     Some (st, ready, Throws (''Worker error: '' @ m))"
| "convert_events msgId (MessageEvent msg # rest) st ready =
     (case init_listener msg st ready of
        (st, ready) \<Rightarrow>
          (case msg of
             Status \<Rightarrow> convert_events msgId rest (updateProgress (progress st) st) ready
           | Progress percent \<Rightarrow>
               convert_events msgId rest
                 (updateProgress (case percent of Some v \<Rightarrow> v | None \<Rightarrow> progress st) st) ready
           | ConvertComplete rid \<Rightarrow>
               if rid \<noteq> msgId then convert_events msgId rest st ready
               else Some (st, ready, Returns ())
           | ErrorMsg rid e \<Rightarrow>
               if rid \<noteq> msgId then convert_events msgId rest st ready
               else Some (st, ready, Throws (if e = [] then ''Conversion failed'' else e))
           | InitComplete rid \<Rightarrow> convert_events msgId rest st ready))"

definition initWorker ::
  "docx_env \<Rightarrow> docx_state \<Rightarrow> ProgressState \<Rightarrow> (docx_state \<times> ProgressState \<times> unit outcome) option"
  where
  "initWorker env proc st =
     (case worker proc of
        Some w \<Rightarrow> Some (proc, st, Returns ())
      | None \<Rightarrow>
          (case d_new_Worker env of
             Throws m \<Rightarrow> Some (proc, st, Throws m)
           | Returns u \<Rightarrow>
               (case worker_onmessage (d_python env) new_worker_state (Init (d_initId env)) of
                  (posted, w) \<Rightarrow>
                    (case init_events (deliver (d_init_failure env) posted) st (workerReady proc) of
                       None \<Rightarrow> None
                     | Some (st, ready, r) \<Rightarrow>
                         Some (\<lparr>worker = Some w, workerReady = ready\<rparr>, st, r)))))"

definition terminateWorker :: "docx_state \<Rightarrow> docx_state" where
  "terminateWorker proc =
     (if worker proc \<noteq> None then \<lparr>worker = None, workerReady = False\<rparr> else proc)"

text \<open>The second half of \<open>process\<close>, from \<open>updateProgress(30, ...)\<close> on: the conversion
  promise, the cancellation check after it, and the \<open>catch\<close> of \<open>process\<close>, which terminates
  the worker.\<close>

definition docx_convert ::
  "docx_env \<Rightarrow> docx_state \<Rightarrow> ProgressState
     \<Rightarrow> (docx_state \<times> ProgressState \<times> unit ProcessOutput) option" where
  "docx_convert env proc st =
     (let st = updateProgress 30 st
      in case worker proc of
           None \<Rightarrow> Some (terminateWorker proc, st, ErrorOutput PROCESSING_FAILED)
         | Some w \<Rightarrow>
             (case worker_onmessage (d_python env) w (Convert (d_msgId env)) of
                (posted, w) \<Rightarrow>
                  (case convert_events (d_msgId env) (deliver (d_convert_failure env) posted) st
                          (workerReady proc) of
                     None \<Rightarrow> None
                   | Some (st, ready, Throws error) \<Rightarrow>
                       Some (terminateWorker \<lparr>worker = Some w, workerReady = ready\<rparr>, st,
                             ErrorOutput PROCESSING_FAILED)
                   | Some (st, ready, Returns docxBlob) \<Rightarrow>
                       if d_cancelled_converted env
                       then Some (\<lparr>worker = Some w, workerReady = ready\<rparr>, st,
                                  ErrorOutput PROCESSING_CANCELLED)
                       else Some (\<lparr>worker = Some w, workerReady = ready\<rparr>, updateProgress 100 st,
                                  SuccessOutput ()))))"

text \<open>\<open>PDFToDocxProcessor.process\<close>: the processor's fields after the call, the progress
  state and the envelope; \<^const>\<open>None\<close> when the call does not return.\<close>

definition docx_process ::
  "docx_env \<Rightarrow> docx_state \<Rightarrow> unit ProcessInput
     \<Rightarrow> (docx_state \<times> ProgressState \<times> unit ProcessOutput) option" where
  "docx_process env proc input =
     (let st = reset
      in if length (files input) \<noteq> 1 then Some (proc, st, ErrorOutput INVALID_OPTIONS)
         else if \<not> looks_like_pdf (files input ! 0)
         then Some (proc, st, ErrorOutput FILE_TYPE_INVALID)
         else
           (case initWorker env proc (updateProgress 10 st) of
              None \<Rightarrow> None
            | Some (proc, st, Throws err) \<Rightarrow> Some (proc, st, ErrorOutput WORKER_FAILED)
            | Some (proc, st, Returns u) \<Rightarrow>
                if d_cancelled_ready env then Some (proc, st, ErrorOutput PROCESSING_CANCELLED)
                else docx_convert env proc st))"

section \<open>The grouping the specification describes\<close>

text \<open>Consecutive batches of \<open>n\<close> pages, in order, the last one possibly shorter.\<close>

function page_batches :: "nat \<Rightarrow> int list \<Rightarrow> int list list" where
  "page_batches n xs = (if n = 0 \<or> xs = [] then [] else take n xs # page_batches n (drop n xs))"
  by pat_completeness auto
termination
  by (relation "measure (\<lambda>(n, xs). length xs)") auto

declare page_batches.simps [simp del]

text \<open>The groups of the grid layout: with \<open>skipFirst\<close> the first page alone and then the
  batches of the others, otherwise the batches of all pages.\<close>

definition grouped_pages :: "nat \<Rightarrow> bool \<Rightarrow> int list \<Rightarrow> int list list" where
  "grouped_pages n skipFirst xs =
     (if skipFirst \<and> xs \<noteq> [] then [hd xs] # page_batches n (tl xs) else page_batches n xs)"

section \<open>Notions used to state the properties of the processors\<close>

text \<open>Whether the rendering of a page returns, in the rasterize processor.\<close>

definition renders :: "rasterize_env \<Rightarrow> rat \<Rightarrow> int \<Rightarrow> bool" where
  "renders env scale pageNum =
     (case r_render env pageNum scale of Returns viewport \<Rightarrow> True | Throws pageError \<Rightarrow> False)"

text \<open>The page that the PDF output mode makes of a rendered source page.\<close>

definition page_of :: "rasterize_env \<Rightarrow> RasterizePDFOptions \<Rightarrow> int \<Rightarrow> pdf_page" where
  "page_of env opts pageNum =
     (case r_render env pageNum (dpi opts / 72) of
        Returns viewport \<Rightarrow>
          \<lparr>pg_source = pageNum,
           pg_widthMm = (fst viewport / dpi opts) * (254 / 10),
           pg_heightMm = (snd viewport / dpi opts) * (254 / 10),
           pg_landscape = ((fst viewport / dpi opts) * (254 / 10) > (snd viewport / dpi opts) * (254 / 10))\<rparr>
      | Throws pageError \<Rightarrow>
          \<lparr>pg_source = pageNum, pg_widthMm = 0, pg_heightMm = 0, pg_landscape = False\<rparr>)"

text \<open>Whether the rendering of a page, and of a group, throws in the PDF-to-image
  processor.\<close>

definition page_throws :: "image_env \<Rightarrow> int \<Rightarrow> bool" where
  "page_throws env pageNum =
     (case i_renderPageToImage env pageNum of Throws error \<Rightarrow> True | Returns imageBlob \<Rightarrow> False)"

definition group_throws :: "image_env \<Rightarrow> int list \<Rightarrow> bool" where
  "group_throws env grp =
     (if length grp = 1 then page_throws env (grp ! 0)
      else (case i_renderGridPagesToImage env grp of
              Throws error \<Rightarrow> True
            | Returns imageBlob \<Rightarrow> False))"

text \<open>A message that does not settle a request, and an answer of the worker that ends, after
  such messages only, in an application-level \<open>error\<close> message carrying the request's id.\<close>

fun non_terminal :: "worker_msg \<Rightarrow> bool" where
  "non_terminal Status = True"
| "non_terminal (Progress percent) = True"
| "non_terminal (InitComplete rid) = False"
| "non_terminal (ConvertComplete rid) = False"
| "non_terminal (ErrorMsg rid e) = False"

fun is_error_for :: "string \<Rightarrow> worker_msg \<Rightarrow> bool" where
  "is_error_for msgId (ErrorMsg rid e) = (rid = msgId)"
| "is_error_for msgId Status = False"
| "is_error_for msgId (Progress percent) = False"
| "is_error_for msgId (InitComplete rid) = False"
| "is_error_for msgId (ConvertComplete rid) = False"

definition application_error_answer :: "string \<Rightarrow> worker_msg list \<Rightarrow> bool" where
  "application_error_answer msgId posted =
     (posted \<noteq> [] \<and> list_all non_terminal (butlast posted) \<and> is_error_for msgId (last posted))"

section \<open>Concrete inputs\<close>

definition report_pdf :: File where
  "report_pdf = \<lparr>name = ''report.pdf'', mime = ''application/pdf''\<rparr>"

definition notes_txt :: File where
  "notes_txt = \<lparr>name = ''notes.txt'', mime = ''text/plain''\<rparr>"

text \<open>A document of \<open>totalPages\<close> US-Letter pages in which the rendering of the pages listed
  in \<open>bad\<close> throws; nothing else fails and nobody cancels.\<close>

definition rasterize_env_with :: "int \<Rightarrow> int list \<Rightarrow> rasterize_env" where
  "rasterize_env_with totalPages bad =
     \<lparr>r_loadPdfjs = Returns (), r_getDocument = Returns totalPages, r_cancelled_loaded = False,
      r_cancelled_at = (\<lambda>i. False),
      r_render = (\<lambda>pageNum scale. if pageNum \<in> set bad then Throws ''render failed''
                                   else Returns (612 * scale, 792 * scale)),
      r_import_jspdf = Returns (), r_zip = Returns ()\<rparr>"

definition image_env_with :: "int \<Rightarrow> int list \<Rightarrow> image_env" where
  "image_env_with totalPages bad =
     \<lparr>i_loadPdfjs = Returns (), i_cancelled_loaded = False, i_getDocument = Returns totalPages,
      i_cancelled_at = (\<lambda>i. False),
      i_renderPageToImage = (\<lambda>pageNum. if pageNum \<in> set bad then Throws ''render failed''
                                        else Returns ()),
      i_renderGridPagesToImage = (\<lambda>grp. if list_ex (\<lambda>p. p \<in> set bad) grp
                                         then Throws ''render failed'' else Returns ())\<rparr>"

definition watermark_env_ok :: "int \<Rightarrow> watermark_env" where
  "watermark_env_ok totalPages =
     \<lparr>w_loadPdfLib = Returns (), w_load = Returns totalPages, w_cancelled_at = (\<lambda>i. False),
      w_draw = (\<lambda>pageIndex. Returns ()), w_save = Returns ()\<rparr>"

text \<open>A Python environment in which every step returns, on a document of 3 pages; a call
  in which the channel does not fail and nobody cancels; a processor that has not created
  its worker yet, and one whose worker has been initialised by an earlier call.\<close>

definition python_ok :: worker_env where
  "python_ok =
     \<lparr>k_loadPyodide = Returns (), k_install = Returns (), k_install_pdf2docx = Returns (),
      k_define_helpers = Returns (), k_arrayBuffer = Returns (), k_write_input = Returns (),
      k_pdf_convert = Returns 3, k_read_result = Returns ()\<rparr>"

definition docx_env_with :: "worker_env \<Rightarrow> docx_env" where
  "docx_env_with python =
     \<lparr>d_new_Worker = Returns (), d_python = python, d_initId = ''init-1700000000000'',
      d_msgId = ''convert-1700000000500'', d_init_failure = None, d_convert_failure = None,
      d_cancelled_ready = False, d_cancelled_converted = False\<rparr>"

definition fresh_processor :: docx_state where
  "fresh_processor = \<lparr>worker = None, workerReady = False\<rparr>"

definition ready_processor :: docx_state where
  "ready_processor =
     \<lparr>worker = Some \<lparr>pyodide = True, initPromise = Some (Returns ()), helpers = True\<rparr>,
      workerReady = True\<rparr>"

section \<open>The progress contract\<close>

text \<open>The percentages reported during a call never decrease; a call that succeeds has
  reported 100 last, and a call that fails has never reported 100.\<close>

definition progress_contract :: "ProgressState \<Rightarrow> 'r ProcessOutput \<Rightarrow> bool" where
  "progress_contract st out =
     (sorted (reported st) \<and>
      (case out of
         SuccessOutput r \<Rightarrow> reported st \<noteq> [] \<and> last (reported st) = 100
       | ErrorOutput code \<Rightarrow> 100 \<notin> set (reported st)))"

text \<open>The percentages reported so far are non-decreasing and none exceeds \<open>v\<close>.\<close>

definition below :: "rat \<Rightarrow> ProgressState \<Rightarrow> bool" where
  "below v st = (sorted (reported st) \<and> (\<forall>x \<in> set (reported st). x \<le> v))"

section \<open>Properties of the page-range resolution\<close>

lemma set_add_set: "set (set_add x xs) = insert x (set xs)"
  by (auto simp: set_add_def)

lemma set_add_distinct: "distinct xs \<Longrightarrow> distinct (set_add x xs)"
  by (simp add: set_add_def)

lemma add_range_empty: "hi < i \<Longrightarrow> add_range i hi acc = acc"
  by (subst add_range.simps) simp

lemma add_range_set: "set (add_range i hi acc) = set acc \<union> {i..hi}"
proof (induction i hi acc rule: add_range.induct)
  case (1 i hi acc)
  show ?case
  proof (cases "i \<le> hi")
    case True
    have unf: "add_range i hi acc = add_range (i + 1) hi (set_add i acc)"
      using True by (subst add_range.simps) simp
    have iv: "{i..hi} = insert i {i + 1..hi}"
      using True by auto
    have "set (add_range (i + 1) hi (set_add i acc)) = set (set_add i acc) \<union> {i + 1..hi}"
      using True by (rule "1.IH")
    then show ?thesis
      unfolding unf iv set_add_set by blast
  next
    case False
    then show ?thesis by (subst add_range.simps) simp
  qed
qed

lemma add_range_distinct: "distinct acc \<Longrightarrow> distinct (add_range i hi acc)"
proof (induction i hi acc rule: add_range.induct)
  case (1 i hi acc)
  show ?case
  proof (cases "i \<le> hi")
    case True
    have unf: "add_range i hi acc = add_range (i + 1) hi (set_add i acc)"
      using True by (subst add_range.simps) simp
    have "distinct (set_add i acc)"
      using "1.prems" by (rule set_add_distinct)
    with True have "distinct (add_range (i + 1) hi (set_add i acc))"
      by (rule "1.IH")
    then show ?thesis unfolding unf .
  next
    case False
    with "1.prems" show ?thesis by (subst add_range.simps) simp
  qed
qed

lemma add_part_distinct: "distinct acc \<Longrightarrow> distinct (add_part N part acc)"
  unfolding add_part_def Let_def
  by (simp add: add_range_distinct set_add_distinct split: option.split)

lemma add_part_subset: "set (add_part N part acc) \<subseteq> set acc \<union> {1..N}"
  unfolding add_part_def Let_def
  by (auto simp: add_range_set set_add_set split: option.split)

lemma add_part_reversed:
  assumes "reversed_token part"
  shows "add_part N part acc = acc"
proof -
  let ?a = "the (elem (range_endpoints part) 0)"
  let ?b = "the (elem (range_endpoints part) 1)"
  from assms have "?b < ?a" by (simp add: reversed_token_def)
  then have "min N ?b < max 1 ?a" by simp
  then have "add_range (max 1 ?a) (min N ?b) acc = acc"
    by (rule add_range_empty)
  with assms show ?thesis by (simp add: add_part_def Let_def reversed_token_def)
qed

lemma add_part_out_of_bounds:
  assumes "out_of_bounds_token N part"
  shows "add_part N part acc = acc"
proof (cases "CHR ''-'' \<in> set part")
  case True
  let ?a = "the (elem (range_endpoints part) 0)"
  let ?b = "the (elem (range_endpoints part) 1)"
  from assms True have "?b < 1 \<or> N < ?a" by (simp add: out_of_bounds_token_def)
  then have "min N ?b < max 1 ?a" by auto
  then have "add_range (max 1 ?a) (min N ?b) acc = acc"
    by (rule add_range_empty)
  with True show ?thesis by (simp add: add_part_def Let_def)
next
  case False
  with assms show ?thesis
    by (auto simp: add_part_def out_of_bounds_token_def split: option.split)
qed

lemma fold_add_part_distinct: "distinct acc \<Longrightarrow> distinct (fold (add_part N) parts acc)"
  by (induction parts arbitrary: acc) (simp_all add: add_part_distinct)

lemma fold_add_part_subset: "set (fold (add_part N) parts acc) \<subseteq> set acc \<union> {1..N}"
proof (induction parts arbitrary: acc)
  case Nil
  show ?case by simp
next
  case (Cons p ps)
  have "set (fold (add_part N) ps (add_part N p acc)) \<subseteq> set (add_part N p acc) \<union> {1..N}"
    by (rule Cons.IH)
  with add_part_subset [of N p acc] show ?case by auto
qed

lemma parsePageRange_strict: "sorted_wrt (<) (parsePageRange s N)"
  by (simp add: parsePageRange_def fold_add_part_distinct strict_sorted_iff)

lemma parsePageRange_bounds: "set (parsePageRange s N) \<subseteq> {1..N}"
  using fold_add_part_subset [of N _ "[]"] by (auto simp: parsePageRange_def)

lemma range_endpoints_2_1: "range_endpoints ''2-1'' = [Some 2, Some 1]"
  by code_simp

lemma range_parts_2_1: "range_parts ''2-1'' = [''2-1'']"
  by code_simp

lemma trim_2_1: "trim ''2-1'' = ''2-1''"
  by code_simp

lemma add_part_2_1: "add_part N ''2-1'' acc = acc"
  by (simp add: add_part_def range_endpoints_2_1 elem_def add_range_empty)

lemma parsePageRange_2_1: "parsePageRange ''2-1'' N = []"
  by (simp add: parsePageRange_def trim_2_1 range_parts_2_1 add_part_2_1)

lemma parsePageRange_example_1: "parsePageRange ''1-3,2,5'' 5 = [1, 2, 3, 5]"
  by code_simp

lemma parsePageRange_example_2: "parsePageRange ''0,99'' 5 = []"
  by code_simp

lemma parseInt_None_iff: "parseInt s = None \<longleftrightarrow> \<not> starts_with_integer s"
proof (cases "dropWhile is_ws s")
  case Nil
  show ?thesis
    unfolding parseInt_def starts_with_integer_def Nil by simp
next
  case (Cons c r)
  show ?thesis
    unfolding parseInt_def starts_with_integer_def Cons
    by (cases r) (simp_all add: Let_def)
qed

lemma split_char_nonempty: "split_char d s \<noteq> []"
  by (induction s) (simp_all add: Let_def)

lemma split_char_two: "d \<in> set s \<Longrightarrow> 2 \<le> length (split_char d s)"
proof (induction s)
  case Nil
  then show ?case by simp
next
  case (Cons c cs)
  have ne: "split_char d cs \<noteq> []" by (rule split_char_nonempty)
  show ?case
  proof (cases "c = d")
    case True
    with ne show ?thesis by (cases "split_char d cs") (simp_all add: Let_def)
  next
    case False
    with Cons have "2 \<le> length (split_char d cs)" by simp
    with False show ?thesis by (cases "split_char d cs") (simp_all add: Let_def)
  qed
qed

lemma range_endpoints_texts: "range_endpoints part = map parseInt (endpoint_texts part)"
  by (simp add: range_endpoints_def endpoint_texts_def)

lemma endpoints_unreadable:
  assumes "CHR ''-'' \<in> set part"
  shows "(elem (range_endpoints part) 0 = None \<or> elem (range_endpoints part) 1 = None)
     \<longleftrightarrow> unreadable_token part"
proof -
  from split_char_two [OF assms] have len: "2 \<le> length (endpoint_texts part)"
    by (simp add: endpoint_texts_def)
  then obtain a b rest where e: "endpoint_texts part = a # b # rest"
    by (cases "endpoint_texts part"; cases "tl (endpoint_texts part)") auto
  with assms show ?thesis
    by (simp add: unreadable_token_def range_endpoints_texts elem_def parseInt_None_iff)
qed

lemma add_part_unreadable: "unreadable_token part \<Longrightarrow> add_part N part acc = acc"
proof (cases "CHR ''-'' \<in> set part")
  case True
  assume "unreadable_token part"
  with endpoints_unreadable [OF True]
  have "elem (range_endpoints part) 0 = None \<or> elem (range_endpoints part) 1 = None" by simp
  with True show ?thesis by (auto simp: add_part_def Let_def)
next
  case False
  assume "unreadable_token part"
  with False have "parseInt part = None"
    by (simp add: unreadable_token_def parseInt_None_iff)
  with False show ?thesis by (simp add: add_part_def)
qed






lemma add_part_dropped:
  assumes "1 \<le> N" and "dropped_token N part"
  shows "add_part N part acc = acc"
proof -
  from assms(2) show ?thesis
    unfolding dropped_token_def
    using add_part_unreadable add_part_reversed add_part_out_of_bounds by blast
qed


lemma digit_not_space: "is_digit c \<Longrightarrow> \<not> is_ws c"
  by (auto simp: is_digit_def is_ws_def)

lemma digit_not_sign: "is_digit c \<Longrightarrow> c \<noteq> CHR ''-'' \<and> c \<noteq> CHR ''+''"
  by (auto simp: is_digit_def)

lemma parseInt_leading_integer:
  assumes "integer_text ds" and "rest = [] \<or> \<not> is_digit (hd rest)"
  shows "parseInt (ds @ rest) = Some (digits_val ds)"
proof -
  from assms(1) obtain c cs where ds: "ds = c # cs" and dig: "\<forall>x \<in> set ds. is_digit x"
    by (cases ds) (auto simp: integer_text_def list_all_iff)
  then have c: "is_digit c" by simp
  from assms(2) have tw: "takeWhile is_digit rest = []"
    by (cases rest) auto
  from dig have take: "takeWhile is_digit (ds @ rest) = ds"
    by (simp add: takeWhile_append2 tw)
  from c have dw: "dropWhile is_ws (ds @ rest) = ds @ rest"
    unfolding ds using digit_not_space by simp
  from c digit_not_sign have sg: "c \<noteq> CHR ''-''" "c \<noteq> CHR ''+''" by blast+
  have "parseInt (ds @ rest) = (if takeWhile is_digit (ds @ rest) = [] then None
      else Some (1 * digits_val (takeWhile is_digit (ds @ rest))))"
    unfolding parseInt_def dw using sg by (simp add: ds Let_def)
  with take ds show ?thesis by simp
qed

lemma digits_no_dash: "integer_text ds \<Longrightarrow> CHR ''-'' \<notin> set ds"
  using digit_not_sign by (auto simp: integer_text_def list_all_iff)

lemma add_part_leading_integer:
  assumes "integer_text ds" and "rest = [] \<or> \<not> is_digit (hd rest)" and "CHR ''-'' \<notin> set rest"
  shows "add_part N (ds @ rest) acc =
     (if 1 \<le> digits_val ds \<and> digits_val ds \<le> N then set_add (digits_val ds) acc else acc)"
  using parseInt_leading_integer [OF assms(1,2)] digits_no_dash [OF assms(1)] assms(3)
  by (simp add: add_part_def)

lemma integer_text_starts: "integer_text s \<Longrightarrow> starts_with_integer s"
proof -
  assume "integer_text s"
  then obtain c cs where s: "s = c # cs" and c: "is_digit c"
    by (cases s) (auto simp: integer_text_def)
  from c digit_not_space digit_not_sign show ?thesis
    unfolding s starts_with_integer_def by simp
qed

lemma unreadable_not_numeric: "unreadable_token part \<Longrightarrow> \<not> numeric_token part"
proof
  assume u: "unreadable_token part" and n: "numeric_token part"
  show False
  proof (cases "CHR ''-'' \<in> set part")
    case True
    with n have "length (endpoint_texts part) = 2"
      and "list_all integer_text (endpoint_texts part)"
      by (simp_all add: numeric_token_def)
    then have "list_all starts_with_integer (take 2 (endpoint_texts part))"
      using integer_text_starts by (auto simp: list_all_iff)
    with u True show False by (simp add: unreadable_token_def)
  next
    case False
    with n have "integer_text part" by (simp add: numeric_token_def)
    then have "starts_with_integer part" by (rule integer_text_starts)
    with u False show False by (simp add: unreadable_token_def)
  qed
qed

lemma fold_add_part_skip:
  "fold (add_part N) (filter (\<lambda>p. \<not> (unreadable_token p \<or> reversed_token p)) parts) acc
     = fold (add_part N) parts acc"
  by (induction parts arbitrary: acc) (auto simp: add_part_unreadable add_part_reversed)

text \<open>
  Claim C3, as stated: for every input string the function never throws, and non-numeric or
  reversed tokens are silently dropped.  The second part fails: \<open>3abc\<close> is not a number and
  \<open>2x-4y\<close> is not a range of two numbers, yet neither is dropped.  With 5 pages the token
  \<open>3abc\<close> adds page 3 and \<open>2x-4y\<close> adds the pages 2, 3 and 4, because \<open>parseInt\<close> reads the
  integer a string starts with and ignores what follows it.
\<close>

theorem non_numeric_token_read_counterexample:
  "\<not> numeric_token ''3abc'' \<and> add_part 5 ''3abc'' [] = [3] \<and> parsePageRange ''3abc'' 5 = [3]
   \<and> \<not> numeric_token ''2x-4y'' \<and> add_part 5 ''2x-4y'' [] = [2, 3, 4]
   \<and> parsePageRange ''2x-4y'' 5 = [2, 3, 4]"
  by code_simp

text \<open>
  Claim C3, amended.  For every page count \<open>N \<ge> 1\<close>: the empty string gives \<open>[1..N]\<close>; the
  reversed token \<open>2-1\<close> adds no page; \<open>"1-3,2,5"\<close> with 5 pages gives \<open>[1,2,3,5]\<close>; \<open>"0,99"\<close>
  with 5 pages gives \<open>[]\<close>.  For every input string the function returns a list (the source
  has no failing path), which is strictly ascending, hence free of duplicates, and within
  \<open>1..N\<close>.  A token is silently dropped when it is unreadable (no integer starts the token
  or, for a token with a dash, one of its first two pieces) or a reversed range, so the
  result is the one obtained from the string's other tokens alone; every unreadable token is
  non-numeric.  A non-numeric token that starts with an integer is not dropped but read as
  that integer: digits followed by characters that hold no dash and do not start with a
  digit add the page the digits name when it lies in \<open>1..N\<close>, so with 5 pages \<open>"3abc"\<close> gives
  \<open>[3]\<close> and \<open>"2x-4y"\<close> gives \<open>[2,3,4]\<close>.
\<close>

theorem parsePageRange_examples_and_leading_integers:
  assumes "1 \<le> N"
  shows "parsePageRange [] N = [1..N]
       \<and> (\<forall>acc. add_part N ''2-1'' acc = acc) \<and> parsePageRange ''2-1'' N = []
       \<and> parsePageRange ''1-3,2,5'' 5 = [1, 2, 3, 5]
       \<and> parsePageRange ''0,99'' 5 = []
       \<and> (\<forall>s. sorted_wrt (<) (parsePageRange s N) \<and> set (parsePageRange s N) \<subseteq> {1..N})
       \<and> (\<forall>part acc. unreadable_token part \<or> reversed_token part
              \<longrightarrow> add_part N part acc = acc)
       \<and> (\<forall>s. s \<noteq> [] \<and> trim s \<noteq> [] \<longrightarrow>
              parsePageRange s N =
                sort (fold (add_part N)
                  (filter (\<lambda>p. \<not> (unreadable_token p \<or> reversed_token p)) (range_parts s)) []))
       \<and> (\<forall>part. unreadable_token part \<longrightarrow> \<not> numeric_token part)
       \<and> (\<forall>ds rest acc.
              integer_text ds \<and> (rest = [] \<or> \<not> is_digit (hd rest)) \<and> CHR ''-'' \<notin> set rest
              \<longrightarrow> add_part N (ds @ rest) acc =
                    (if 1 \<le> digits_val ds \<and> digits_val ds \<le> N
                     then set_add (digits_val ds) acc else acc))
       \<and> parsePageRange ''3abc'' 5 = [3]
       \<and> parsePageRange ''2x-4y'' 5 = [2, 3, 4]"
proof -
  have "parsePageRange [] N = [1..N]"
    by (simp add: parsePageRange_def)
  moreover have "\<forall>part acc. unreadable_token part \<or> reversed_token part
      \<longrightarrow> add_part N part acc = acc"
    using add_part_unreadable add_part_reversed by blast
  moreover have "\<forall>s. s \<noteq> [] \<and> trim s \<noteq> [] \<longrightarrow>
      parsePageRange s N =
        sort (fold (add_part N)
          (filter (\<lambda>p. \<not> (unreadable_token p \<or> reversed_token p)) (range_parts s)) [])"
    by (simp only: parsePageRange_def fold_add_part_skip) simp
  moreover have "\<forall>part. unreadable_token part \<longrightarrow> \<not> numeric_token part"
    using unreadable_not_numeric by blast
  moreover have "\<forall>ds rest acc.
      integer_text ds \<and> (rest = [] \<or> \<not> is_digit (hd rest)) \<and> CHR ''-'' \<notin> set rest
      \<longrightarrow> add_part N (ds @ rest) acc =
            (if 1 \<le> digits_val ds \<and> digits_val ds \<le> N
             then set_add (digits_val ds) acc else acc)"
    using add_part_leading_integer by blast
  moreover have "parsePageRange ''3abc'' 5 = [3]" by code_simp
  moreover have "parsePageRange ''2x-4y'' 5 = [2, 3, 4]" by code_simp
  ultimately show ?thesis
    using add_part_2_1 parsePageRange_2_1 parsePageRange_example_1 parsePageRange_example_2
      parsePageRange_strict parsePageRange_bounds
    by blast
qed

theorem parsePageRange_examples_and_leading_integers_witness:
  "(1::int) \<le> 5
   \<and> parsePageRange [] 5 = [1, 2, 3, 4, 5]
   \<and> unreadable_token ''x'' \<and> add_part 5 ''x'' [2] = [2] \<and> \<not> numeric_token ''x''
   \<and> reversed_token ''3-1'' \<and> add_part 5 ''3-1'' [2] = [2]
   \<and> ''x,2'' \<noteq> [] \<and> trim ''x,2'' \<noteq> [] \<and> parsePageRange ''x,2'' 5 = [2]
   \<and> integer_text ''3'' \<and> \<not> is_digit (hd ''abc'') \<and> CHR ''-'' \<notin> set ''abc''
   \<and> add_part 5 (''3'' @ ''abc'') [2] = [2, 3]"
proof -
  have h: "(1::int) \<le> 5" by simp
  note t = parsePageRange_examples_and_leading_integers [OF h]
  have un: "unreadable_token ''x''" by code_simp
  have rv: "reversed_token ''3-1''" by code_simp
  have tr: "''x,2'' \<noteq> [] \<and> trim ''x,2'' \<noteq> []" by code_simp
  have up: "[1..5] = [1, 2, 3, 4, 5::int]" by code_simp
  have flt: "sort (fold (add_part 5)
      (filter (\<lambda>p. \<not> (unreadable_token p \<or> reversed_token p)) (range_parts ''x,2'')) []) = [2]"
    by code_simp
  have lead: "integer_text ''3'' \<and> (''abc'' = [] \<or> \<not> is_digit (hd ''abc''))
      \<and> CHR ''-'' \<notin> set ''abc''"
    by code_simp
  have val: "(if 1 \<le> digits_val ''3'' \<and> digits_val ''3'' \<le> (5::int)
      then set_add (digits_val ''3'') [2] else [2]) = [2, 3]"
    by code_simp
  from t have "parsePageRange [] 5 = [1..5]" by blast
  then have a: "parsePageRange [] 5 = [1, 2, 3, 4, 5]" by (simp only: up)
  from t un have b: "add_part 5 ''x'' [2] = [2]" by blast
  from t un have b': "\<not> numeric_token ''x''" by blast
  from t rv have c: "add_part 5 ''3-1'' [2] = [2]" by blast
  from t tr have "parsePageRange ''x,2'' 5 = sort (fold (add_part 5)
      (filter (\<lambda>p. \<not> (unreadable_token p \<or> reversed_token p)) (range_parts ''x,2'')) [])"
    by blast
  then have d: "parsePageRange ''x,2'' 5 = [2]" by (simp only: flt)
  from t lead have "add_part 5 (''3'' @ ''abc'') [2] =
      (if 1 \<le> digits_val ''3'' \<and> digits_val ''3'' \<le> (5::int)
       then set_add (digits_val ''3'') [2] else [2])"
    by blast
  then have e: "add_part 5 (''3'' @ ''abc'') [2] = [2, 3]" by (simp only: val)
  from lead have lead': "integer_text ''3'' \<and> \<not> is_digit (hd ''abc'') \<and> CHR ''-'' \<notin> set ''abc''"
    by simp
  from h a un b b' rv c tr d lead' e show ?thesis by blast
qed




section \<open>Properties of the grid grouping\<close>

lemma group_of_take:
  "j \<le> n \<Longrightarrow> group_of ps n i j g = g @ take (n - j) (drop (i + j) ps)"
proof (induction ps n i j g rule: group_of.induct)
  case (1 ps n i j g)
  show ?case
  proof (cases "j < n \<and> i + j < length ps")
    case True
    have unf: "group_of ps n i j g = group_of ps n i (j + 1) (g @ [ps ! (i + j)])"
      by (subst group_of.simps) (simp only: True if_True simp_thms)
    from True have "j + 1 \<le> n" by simp
    with True have ih: "group_of ps n i (j + 1) (g @ [ps ! (i + j)])
        = (g @ [ps ! (i + j)]) @ take (n - (j + 1)) (drop (i + (j + 1)) ps)"
      by (intro "1.IH") simp_all
    from True have d: "drop (i + j) ps = ps ! (i + j) # drop (i + (j + 1)) ps"
      by (simp add: Cons_nth_drop_Suc)
    from True obtain m where m: "n - j = Suc m" "n - (j + 1) = m"
      by (cases "n - j") auto
    show ?thesis unfolding unf ih d m by simp
  next
    case False
    have unf: "group_of ps n i j g = g"
      by (subst group_of.simps) (simp only: False if_False)
    from False "1.prems" have "take (n - j) (drop (i + j) ps) = []" by auto
    with unf show ?thesis by simp
  qed
qed

lemma group_of_start: "group_of ps n i 0 [] = take n (drop i ps)"
  using group_of_take [of 0 n ps i "[]"] by simp

lemma group_loop_batches:
  "0 < n \<Longrightarrow> group_loop ps n i gs = Some (gs @ page_batches n (drop i ps))"
proof (induction "length ps - i" arbitrary: i gs rule: less_induct)
  case less
  show ?case
  proof (cases "i < length ps")
    case True
    with less.prems have dec: "length ps - (i + n) < length ps - i" by simp
    from True have ne: "drop i ps \<noteq> []" by simp
    have pb: "page_batches n (drop i ps) = take n (drop i ps) # page_batches n (drop (i + n) ps)"
      using ne less.prems by (subst page_batches.simps) (simp add: add.commute)
    have "group_loop ps n i gs = group_loop ps n (i + n) (gs @ [take n (drop i ps)])"
      using True by (subst group_loop.simps) (simp add: group_of_start)
    also have "\<dots> = Some ((gs @ [take n (drop i ps)]) @ page_batches n (drop (i + n) ps))"
      using dec less.prems by (rule less.hyps)
    also have "\<dots> = Some (gs @ page_batches n (drop i ps))"
      by (simp add: pb)
    finally show ?thesis .
  next
    case False
    then have "group_loop ps n i gs = Some gs"
      by (subst group_loop.simps) simp
    moreover from False have "page_batches n (drop i ps) = []"
      by (subst page_batches.simps) simp
    ultimately show ?thesis by simp
  qed
qed

lemma build_pageGroups_grouped:
  assumes "0 < n"
  shows "build_pageGroups ps n skip = Some (grouped_pages n skip ps)"
proof (cases "skip \<and> ps \<noteq> []")
  case True
  then have "ps ! 0 = hd ps" "drop 1 ps = tl ps"
    by (simp_all add: hd_conv_nth drop_Suc)
  with True group_loop_batches [OF assms, of ps 1 "[[ps ! 0]]"] show ?thesis
    by (simp add: build_pageGroups_def grouped_pages_def)
next
  case False
  with group_loop_batches [OF assms, of ps 0 "[]"] show ?thesis
    by (auto simp: build_pageGroups_def grouped_pages_def)
qed

lemma concat_page_batches: "0 < n \<Longrightarrow> concat (page_batches n xs) = xs"
proof (induction n xs rule: page_batches.induct)
  case (1 n xs)
  show ?case
  proof (cases "xs = []")
    case True
    then show ?thesis by (subst page_batches.simps) simp
  next
    case False
    with "1.prems" have "concat (page_batches n (drop n xs)) = drop n xs"
      by (intro "1.IH") simp_all
    with False "1.prems" show ?thesis by (subst page_batches.simps) simp
  qed
qed

lemma page_batches_sizes:
  "0 < n \<Longrightarrow> g \<in> set (page_batches n xs) \<Longrightarrow> g \<noteq> [] \<and> length g \<le> n"
proof (induction n xs rule: page_batches.induct)
  case (1 n xs)
  show ?case
  proof (cases "xs = []")
    case True
    with "1.prems" show ?thesis by (subst (asm) page_batches.simps) simp
  next
    case False
    from "1.prems"(2) False "1.prems"(1)
    have "g = take n xs \<or> g \<in> set (page_batches n (drop n xs))"
      by (subst (asm) page_batches.simps) simp
    then show ?thesis
    proof
      assume "g = take n xs"
      with False "1.prems"(1) show ?thesis by simp
    next
      assume "g \<in> set (page_batches n (drop n xs))"
      with False "1.prems"(1) show ?thesis by (intro "1.IH") simp_all
    qed
  qed
qed

lemma page_batches_full:
  "0 < n \<Longrightarrow> Suc k < length (page_batches n xs) \<Longrightarrow> length (page_batches n xs ! k) = n"
proof (induction n xs arbitrary: k rule: page_batches.induct)
  case (1 n xs)
  show ?case
  proof (cases "xs = []")
    case True
    with "1.prems" show ?thesis by (subst (asm) page_batches.simps) simp
  next
    case False
    with "1.prems"(1)
    have unf: "page_batches n xs = take n xs # page_batches n (drop n xs)"
      by (subst page_batches.simps) simp
    from "1.prems"(2) have len: "k < length (page_batches n (drop n xs))"
      unfolding unf by simp
    show ?thesis
    proof (cases k)
      case 0
      from len have "page_batches n (drop n xs) \<noteq> []" by auto
      then have "drop n xs \<noteq> []"
        by (subst (asm) page_batches.simps) (auto split: if_splits)
      then have "n \<le> length xs" by simp
      with 0 show ?thesis unfolding unf by simp
    next
      case (Suc k')
      with "1.prems"(2) have "Suc k' < length (page_batches n (drop n xs))"
        unfolding unf by simp
      with False "1.prems"(1) have "length (page_batches n (drop n xs) ! k') = n"
        by (intro "1.IH") simp_all
      with Suc show ?thesis unfolding unf by simp
    qed
  qed
qed


lemma grouped_pages_concat: "0 < n \<Longrightarrow> concat (grouped_pages n skip ps) = ps"
  by (cases ps) (simp_all add: grouped_pages_def concat_page_batches)

lemma grouped_pages_sizes:
  assumes "0 < n" and "g \<in> set (grouped_pages n skip ps)"
  shows "g \<noteq> [] \<and> length g \<le> n"
proof (cases "skip \<and> ps \<noteq> []")
  case True
  with assms(2) have "g = [hd ps] \<or> g \<in> set (page_batches n (tl ps))"
    by (simp add: grouped_pages_def)
  then show ?thesis
  proof
    assume "g = [hd ps]"
    with assms(1) show ?thesis by simp
  next
    assume "g \<in> set (page_batches n (tl ps))"
    with assms(1) show ?thesis by (rule page_batches_sizes)
  qed
next
  case False
  with assms(2) have "g \<in> set (page_batches n ps)"
    by (auto simp: grouped_pages_def)
  with assms(1) show ?thesis by (rule page_batches_sizes)
qed

lemma grouped_pages_full:
  assumes "0 < n" and "Suc k < length (grouped_pages n skip ps)" and "skip \<longrightarrow> 0 < k"
  shows "length (grouped_pages n skip ps ! k) = n"
proof (cases "skip \<and> ps \<noteq> []")
  case True
  with assms(3) obtain k' where k: "k = Suc k'" by (cases k) auto
  with True assms(2) have "Suc k' < length (page_batches n (tl ps))"
    by (simp add: grouped_pages_def)
  with assms(1) have "length (page_batches n (tl ps) ! k') = n"
    by (rule page_batches_full)
  with True k show ?thesis by (simp add: grouped_pages_def)
next
  case False
  with assms(2) have "Suc k < length (page_batches n ps)"
    by (auto simp: grouped_pages_def)
  with assms(1) have "length (page_batches n ps ! k) = n"
    by (rule page_batches_full)
  with False show ?thesis by (auto simp: grouped_pages_def)
qed

lemma grouped_pages_cover: "skip \<Longrightarrow> ps \<noteq> [] \<Longrightarrow> grouped_pages n skip ps ! 0 = [ps ! 0]"
  by (simp add: grouped_pages_def hd_conv_nth)

text \<open>
  Claim C5.  With 2 columns, 2 rows and 5 selected pages the groups are \<open>[[1],[2,3,4,5]]\<close>
  when the first page is set apart and \<open>[[1,2,3,4],[5]]\<close> when it is not.  In general, for
  a grid of at least one cell, the construction returns the pages in order in batches of
  \<open>columns * rows\<close>: the groups concatenate to the selected pages, no group is empty or
  larger than the grid, with \<open>skipFirstPage\<close> the first group is the first page alone, and
  every group but the last (and but that cover group) fills the grid; the last group is
  kept when it is shorter.
\<close>

theorem pageGroups_are_batches:
  assumes "0 < columns layout * rows layout"
  shows "build_pageGroups [1, 2, 3, 4, 5] (2 * 2) True = Some [[1], [2, 3, 4, 5]]
       \<and> build_pageGroups [1, 2, 3, 4, 5] (2 * 2) False = Some [[1, 2, 3, 4], [5]]
       \<and> build_pageGroups ps (columns layout * rows layout) skip
           = Some (grouped_pages (columns layout * rows layout) skip ps)
       \<and> concat (grouped_pages (columns layout * rows layout) skip ps) = ps
       \<and> (\<forall>g \<in> set (grouped_pages (columns layout * rows layout) skip ps).
             g \<noteq> [] \<and> length g \<le> columns layout * rows layout)
       \<and> (skip \<and> ps \<noteq> [] \<longrightarrow>
             grouped_pages (columns layout * rows layout) skip ps ! 0 = [ps ! 0])
       \<and> (\<forall>k. Suc k < length (grouped_pages (columns layout * rows layout) skip ps)
                \<and> (skip \<longrightarrow> 0 < k)
              \<longrightarrow> length (grouped_pages (columns layout * rows layout) skip ps ! k)
                    = columns layout * rows layout)"
proof -
  have "build_pageGroups [1, 2, 3, 4, 5] (2 * 2) True = Some [[1], [2, 3, 4, 5]]"
    by code_simp
  moreover have "build_pageGroups [1, 2, 3, 4, 5] (2 * 2) False = Some [[1, 2, 3, 4], [5]]"
    by code_simp
  moreover note build_pageGroups_grouped [OF assms, of ps skip]
    grouped_pages_concat [OF assms, of skip ps]
  moreover have "\<forall>g \<in> set (grouped_pages (columns layout * rows layout) skip ps).
      g \<noteq> [] \<and> length g \<le> columns layout * rows layout"
    using grouped_pages_sizes [OF assms] by blast
  moreover have "skip \<and> ps \<noteq> [] \<longrightarrow>
      grouped_pages (columns layout * rows layout) skip ps ! 0 = [ps ! 0]"
    using grouped_pages_cover by blast
  moreover have "\<forall>k. Suc k < length (grouped_pages (columns layout * rows layout) skip ps)
        \<and> (skip \<longrightarrow> 0 < k)
      \<longrightarrow> length (grouped_pages (columns layout * rows layout) skip ps ! k)
            = columns layout * rows layout"
    using grouped_pages_full [OF assms] by blast
  ultimately show ?thesis by blast
qed

theorem pageGroups_are_batches_witness:
  "0 < columns \<lparr>columns = 3, rows = 1, skipFirstPage = True\<rparr>
         * rows \<lparr>columns = 3, rows = 1, skipFirstPage = True\<rparr>
   \<and> build_pageGroups [4, 5, 6, 7, 8, 9] 3 True = Some [[4], [5, 6, 7], [8, 9]]
   \<and> [5, 6, 7] \<in> set (grouped_pages 3 True [4, 5, 6, 7, 8, 9])
   \<and> Suc 1 < length (grouped_pages 3 True [4, 5, 6, 7, 8, 9])
   \<and> length (grouped_pages 3 True [4, 5, 6, 7, 8, 9] ! 1) = 3
   \<and> grouped_pages 3 True [4, 5, 6, 7, 8, 9] ! 0 = [[4, 5, 6, 7, 8, 9] ! 0]"
proof -
  let ?l = "\<lparr>columns = 3, rows = 1, skipFirstPage = True\<rparr>"
  have n: "columns ?l * rows ?l = 3" by simp
  have h: "0 < columns ?l * rows ?l" by simp
  note t = pageGroups_are_batches [OF h, of "[4, 5, 6, 7, 8, 9]" True, unfolded n]
  have g: "grouped_pages 3 True [4, 5, 6, 7, 8, 9] = [[4], [5, 6, 7], [8, 9]]"
    by code_simp
  from t have a: "build_pageGroups [4, 5, 6, 7, 8, 9] 3 True
      = Some (grouped_pages 3 True [4, 5, 6, 7, 8, 9])" by blast
  have m: "[5, 6, 7] \<in> set (grouped_pages 3 True [4, 5, 6, 7, 8, 9])"
    by (simp only: g) simp
  have k: "Suc 1 < length (grouped_pages 3 True [4, 5, 6, 7, 8, 9]) \<and> (True \<longrightarrow> 0 < (1::nat))"
    by (simp only: g) simp
  with t have b: "length (grouped_pages 3 True [4, 5, 6, 7, 8, 9] ! 1) = 3" by blast
  have ne: "True \<and> [4, 5, 6, 7, 8, 9::int] \<noteq> []" by simp
  with t have c: "grouped_pages 3 True [4, 5, 6, 7, 8, 9] ! 0 = [[4, 5, 6, 7, 8, 9] ! 0]"
    by blast
  from h a m k b c show ?thesis by (simp add: g)
qed

section \<open>Properties of the watermark page selection\<close>

lemma upto_shift: "[0..N - 1] = map (\<lambda>p. p - 1) [1..N::int]"
  by (rule nth_equalityI) (simp_all add: nth_upto)

lemma filter_shift:
  "filter P (map (\<lambda>p. p - 1) xs) = map (\<lambda>p. p - 1) (filter (\<lambda>p::int. P (p - 1)) xs)"
  by (induction xs) simp_all

lemma odd_pages: "filter (\<lambda>i. i mod 2 = 0) [0..N - 1] = map (\<lambda>p. p - 1) (filter odd [1..N::int])"
proof -
  have "(\<lambda>p::int. (p - 1) mod 2 = 0) = odd"
    by (rule ext) presburger
  then show ?thesis by (simp add: upto_shift filter_shift)
qed

lemma even_pages: "filter (\<lambda>i. i mod 2 = 1) [0..N - 1] = map (\<lambda>p. p - 1) (filter even [1..N::int])"
proof -
  have "(\<lambda>p::int. (p - 1) mod 2 = 1) = even"
    by (rule ext) presburger
  then show ?thesis by (simp add: upto_shift filter_shift)
qed

lemma array_pages:
  "getPageIndices (PageArray ps) N = map (\<lambda>p. p - 1) (filter (\<lambda>p. 1 \<le> p \<and> p \<le> N) ps)"
proof -
  have "(\<lambda>p::int. 0 \<le> p - 1 \<and> p - 1 < N) = (\<lambda>p. 1 \<le> p \<and> p \<le> N)"
    by (rule ext) arith
  then show ?thesis by (simp add: getPageIndices_def filter_shift)
qed

text \<open>
  Claim C10.  \<open>getPageIndices\<close> reads its input as 1-based page numbers and returns the
  0-based index \<open>p - 1\<close> of every selected page number \<open>p\<close>: \<open>'odd'\<close> selects the odd page
  numbers of \<open>1..totalPages\<close> (indices 0, 2, 4, ...), \<open>'even'\<close> the even ones, an array the
  entries \<open>p\<close> with \<open>1 \<le> p \<le> totalPages\<close> in the order given, the others being dropped, and any
  other word every page.
\<close>

theorem getPageIndices_one_based:
  "getPageIndices (PageWord ''odd'') N = map (\<lambda>p. p - 1) (filter odd [1..N])
   \<and> getPageIndices (PageWord ''even'') N = map (\<lambda>p. p - 1) (filter even [1..N])
   \<and> getPageIndices (PageArray ps) N = map (\<lambda>p. p - 1) (filter (\<lambda>p. 1 \<le> p \<and> p \<le> N) ps)
   \<and> (w \<noteq> ''odd'' \<and> w \<noteq> ''even'' \<longrightarrow> getPageIndices (PageWord w) N = map (\<lambda>p. p - 1) [1..N])
   \<and> getPageIndices (PageWord ''odd'') 5 = [0, 2, 4]
   \<and> getPageIndices (PageWord ''even'') 5 = [1, 3]"
proof -
  have "getPageIndices (PageWord ''odd'') 5 = [0, 2, 4]" by code_simp
  moreover have "getPageIndices (PageWord ''even'') 5 = [1, 3]" by code_simp
  moreover have "getPageIndices (PageWord ''odd'') N = map (\<lambda>p. p - 1) (filter odd [1..N])"
    by (simp add: getPageIndices_def odd_pages)
  moreover have "getPageIndices (PageWord ''even'') N = map (\<lambda>p. p - 1) (filter even [1..N])"
    by (simp add: getPageIndices_def even_pages)
  moreover have "w \<noteq> ''odd'' \<and> w \<noteq> ''even'' \<longrightarrow>
      getPageIndices (PageWord w) N = map (\<lambda>p. p - 1) [1..N]"
    by (simp add: getPageIndices_def upto_shift)
  ultimately show ?thesis using array_pages by blast
qed

theorem getPageIndices_one_based_witness:
  "''all'' \<noteq> ''odd'' \<and> ''all'' \<noteq> ''even''
   \<and> getPageIndices (PageWord ''all'') 3 = [0, 1, 2]
   \<and> getPageIndices (PageArray [3, 0, 9, 1, 3]) 5 = [2, 0, 2]"
proof -
  note t = getPageIndices_one_based [of 3 "[]" "''all''"]
  note u = getPageIndices_one_based [of 5 "[3, 0, 9, 1, 3]" "''all''"]
  have w: "''all'' \<noteq> ''odd'' \<and> ''all'' \<noteq> ''even''" by simp
  have e1: "map (\<lambda>p. p - 1) [1..3] = [0, 1, 2::int]" by code_simp
  have e2: "map (\<lambda>p. p - 1) (filter (\<lambda>p. 1 \<le> p \<and> p \<le> 5) [3, 0, 9, 1, 3]) = [2, 0, 2::int]"
    by code_simp
  from t w have "getPageIndices (PageWord ''all'') 3 = map (\<lambda>p. p - 1) [1..3]" by blast
  then have a: "getPageIndices (PageWord ''all'') 3 = [0, 1, 2]" by (simp only: e1)
  from u have "getPageIndices (PageArray [3, 0, 9, 1, 3]) 5
      = map (\<lambda>p. p - 1) (filter (\<lambda>p. 1 \<le> p \<and> p \<le> 5) [3, 0, 9, 1, 3])" by blast
  then have b: "getPageIndices (PageArray [3, 0, 9, 1, 3]) 5 = [2, 0, 2]" by (simp only: e2)
  from w a b show ?thesis by blast
qed

section \<open>Properties of the rendering loops\<close>

lemma image_loop_skips:
  assumes "\<forall>i. \<not> r_cancelled_at env i"
  shows "snd (image_loop env scale n ps i images st) = Inr (images @ filter (renders env scale) ps)"
  using assms
proof (induction ps arbitrary: i images st)
  case Nil
  show ?case by simp
next
  case (Cons p ps)
  show ?case
  proof (cases "r_render env p scale")
    case (Throws m)
    with Cons show ?thesis by (simp add: renders_def Let_def)
  next
    case (Returns v)
    with Cons show ?thesis by (simp add: renders_def Let_def)
  qed
qed

lemma rasterize_image_mode_result:
  assumes "\<forall>i. \<not> r_cancelled_at env i" and "r_zip env = Returns ()"
    and "ok = filter (renders env (dpi opts / 72)) ps"
  shows "snd (rasterize_image_mode env opts ps st) =
     (if ok = [] then ErrorOutput PROCESSING_FAILED
      else if length ok = 1 then SuccessOutput (ImageBlob (ok ! 0))
      else SuccessOutput (ZipBlob ok))"
proof -
  obtain st' r where lp: "image_loop env (dpi opts / 72) (length ps) ps 0 [] st = (st', r)"
    by (cases "image_loop env (dpi opts / 72) (length ps) ps 0 [] st")
  from image_loop_skips [OF assms(1), of "dpi opts / 72" "length ps" ps 0 "[]" st] lp assms(3)
  have "r = Inr ok" by simp
  with lp assms(2) show ?thesis
    by (simp add: rasterize_image_mode_def Let_def)
qed

lemma pdf_loop_appends:
  assumes "\<forall>i. \<not> r_cancelled_at env i" and "0 < i"
  shows "snd (pdf_loop env opts n ps i (Some doc) st)
     = Inr (Some (doc @ map (page_of env opts) (filter (renders env (dpi opts / 72)) ps)))"
  using assms
proof (induction ps arbitrary: i doc st)
  case Nil
  show ?case by simp
next
  case (Cons p ps)
  show ?case
  proof (cases "r_render env p (dpi opts / 72)")
    case (Throws m)
    with Cons show ?thesis by (simp add: renders_def Let_def)
  next
    case (Returns v)
    with Cons show ?thesis by (simp add: renders_def page_of_def Let_def)
  qed
qed

lemma pdf_loop_nothing_rendered:
  assumes "\<forall>i. \<not> r_cancelled_at env i" and "filter (renders env (dpi opts / 72)) ps = []"
  shows "snd (pdf_loop env opts n ps i None st) = Inr None"
  using assms
proof (induction ps arbitrary: i st)
  case Nil
  show ?case by simp
next
  case (Cons p ps)
  show ?case
  proof (cases "r_render env p (dpi opts / 72)")
    case (Throws m)
    with Cons show ?thesis by (simp add: renders_def Let_def split: if_splits)
  next
    case (Returns v)
    with Cons.prems show ?thesis by (simp add: renders_def)
  qed
qed

lemma pdf_loop_first_renders:
  assumes "\<forall>i. \<not> r_cancelled_at env i" and "ps \<noteq> []" and "renders env (dpi opts / 72) (ps ! 0)"
  shows "snd (pdf_loop env opts n ps 0 None st)
     = Inr (Some (map (page_of env opts) (filter (renders env (dpi opts / 72)) ps)))"
proof -
  from assms(2) obtain p rest where ps: "ps = p # rest" by (cases ps) auto
  with assms(3) obtain v where v: "r_render env p (dpi opts / 72) = Returns v"
    by (cases "r_render env p (dpi opts / 72)") (simp_all add: renders_def)
  have one: "0 < Suc 0" by simp
  note rest = pdf_loop_appends [OF assms(1) one, of opts n rest]
  from assms(1) v ps show ?thesis
    by (simp add: Let_def rest renders_def page_of_def)
qed

lemma rasterize_pdf_mode_result:
  assumes "\<forall>i. \<not> r_cancelled_at env i" and "r_import_jspdf env = Returns ()" and "ps \<noteq> []"
    and "renders env (dpi opts / 72) (ps ! 0)"
  shows "snd (rasterize_pdf_mode env opts ps st)
     = SuccessOutput (PdfBlob (map (page_of env opts) (filter (renders env (dpi opts / 72)) ps)))"
proof -
  obtain st' r where lp: "pdf_loop env opts (length ps) ps 0 None st = (st', r)"
    by (cases "pdf_loop env opts (length ps) ps 0 None st")
  from pdf_loop_first_renders [OF assms(1,3,4), of "length ps" st] lp
  have "r = Inr (Some (map (page_of env opts) (filter (renders env (dpi opts / 72)) ps)))"
    by simp
  with lp assms(2) show ?thesis
    by (simp add: rasterize_pdf_mode_def)
qed

lemma rasterize_pdf_mode_all_fail:
  assumes "\<forall>i. \<not> r_cancelled_at env i" and "r_import_jspdf env = Returns ()"
    and "filter (renders env (dpi opts / 72)) ps = []"
  shows "snd (rasterize_pdf_mode env opts ps st) = ErrorOutput PROCESSING_FAILED"
proof -
  obtain st' r where lp: "pdf_loop env opts (length ps) ps 0 None st = (st', r)"
    by (cases "pdf_loop env opts (length ps) ps 0 None st")
  from pdf_loop_nothing_rendered [OF assms(1,3), of "length ps" 0 st] lp
  have "r = Inr None" by simp
  with lp assms(2) show ?thesis
    by (simp add: rasterize_pdf_mode_def)
qed

lemma rasterize_process_reaches_loop:
  assumes "length (files input) = 1" and "r_loadPdfjs env = Returns ()"
    and "r_getDocument env = Returns N" and "\<not> r_cancelled_loaded env"
    and "parsePageRange (case pageRange (options input) of None \<Rightarrow> [] | Some r \<Rightarrow> r) N = ps"
    and "ps \<noteq> []"
  shows "rasterize_process env input =
     (if format (options input) = PDF
      then rasterize_pdf_mode env (options input) ps
             (updateProgress 15 (updateProgress 10 (updateProgress 10 (updateProgress 5 reset))))
      else rasterize_image_mode env (options input) ps
             (updateProgress 15 (updateProgress 10 (updateProgress 10 (updateProgress 5 reset)))))"
  using assms by (simp add: rasterize_process_def Let_def)

lemma single_loop_fails_fast:
  assumes "\<forall>i. \<not> i_cancelled_at env i" and "list_ex (page_throws env) ps"
  shows "snd (single_loop env n ps i images st) = Inl PROCESSING_FAILED"
  using assms
proof (induction ps arbitrary: i images st)
  case Nil
  then show ?case by simp
next
  case (Cons p ps)
  show ?case
  proof (cases "i_renderPageToImage env p")
    case (Throws m)
    with Cons.prems show ?thesis by (simp add: Let_def)
  next
    case (Returns u)
    with Cons show ?thesis by (simp add: Let_def page_throws_def)
  qed
qed

lemma grid_loop_fails_fast:
  assumes "\<forall>i. \<not> i_cancelled_at env i" and "list_ex (group_throws env) groups"
  shows "snd (grid_loop env n groups i images st) = Inl PROCESSING_FAILED"
  using assms
proof (induction groups arbitrary: i images st)
  case Nil
  then show ?case by simp
next
  case (Cons g gs)
  show ?case
  proof (cases "group_throws env g")
    case True
    with Cons.prems show ?thesis
      by (auto simp: Let_def group_throws_def page_throws_def split: outcome.splits if_splits)
  next
    case False
    with Cons show ?thesis
      by (auto simp: Let_def group_throws_def page_throws_def split: outcome.splits if_splits)
  qed
qed

lemma image_finish_error: "snd r = Inl code \<Longrightarrow> snd (image_finish r) = ErrorOutput code"
  by (cases r) (simp add: image_finish_def)

lemma image_process_reaches_loops:
  assumes "length (files input) = 1" and "looks_like_pdf (files input ! 0)"
    and "i_loadPdfjs env = Returns ()" and "\<not> i_cancelled_loaded env"
    and "i_getDocument env = Returns M"
    and "pagesToConvert_of (pages (options input)) M = qs" and "qs \<noteq> []"
  shows "image_process env input =
     (if columns (pageLayout (options input)) * rows (pageLayout (options input)) = 1
      then Some (image_finish (single_loop env (length qs) qs 0 []
             (updateProgress 15 (updateProgress 10 (updateProgress 5 reset)))))
      else (case build_pageGroups qs
                  (columns (pageLayout (options input)) * rows (pageLayout (options input)))
                  (skipFirstPage (pageLayout (options input))) of
              None \<Rightarrow> None
            | Some pageGroups \<Rightarrow>
                Some (image_finish (grid_loop env (length pageGroups) pageGroups 0 []
                  (updateProgress 15 (updateProgress 10 (updateProgress 5 reset)))))))"
  using assms by (simp add: image_process_def Let_def del: nat_mult_eq_1_iff)

lemma image_process_single_fails_fast:
  assumes "length (files input) = 1" and "looks_like_pdf (files input ! 0)"
    and "i_loadPdfjs env = Returns ()" and "\<not> i_cancelled_loaded env"
    and "i_getDocument env = Returns M" and "\<forall>i. \<not> i_cancelled_at env i"
    and "pagesToConvert_of (pages (options input)) M = qs" and "qs \<noteq> []"
    and "columns (pageLayout (options input)) * rows (pageLayout (options input)) = 1"
    and "list_ex (page_throws env) qs"
  shows "map_option snd (image_process env input) = Some (ErrorOutput PROCESSING_FAILED)"
proof -
  let ?st = "updateProgress 15 (updateProgress 10 (updateProgress 5 reset))"
  have f: "snd (image_finish (single_loop env (length qs) qs 0 [] ?st))
      = ErrorOutput PROCESSING_FAILED"
    by (rule image_finish_error) (rule single_loop_fails_fast [OF assms(6,10)])
  have "image_process env input = Some (image_finish (single_loop env (length qs) qs 0 [] ?st))"
    unfolding image_process_reaches_loops [OF assms(1-5,7,8)]
    by (simp only: assms(9) refl if_True)
  with f show ?thesis by simp
qed

lemma image_process_grid_fails_fast:
  assumes "length (files input) = 1" and "looks_like_pdf (files input ! 0)"
    and "i_loadPdfjs env = Returns ()" and "\<not> i_cancelled_loaded env"
    and "i_getDocument env = Returns M" and "\<forall>i. \<not> i_cancelled_at env i"
    and "pagesToConvert_of (pages (options input)) M = qs" and "qs \<noteq> []"
    and "1 < columns (pageLayout (options input)) * rows (pageLayout (options input))"
    and "list_ex (group_throws env)
           (grouped_pages (columns (pageLayout (options input)) * rows (pageLayout (options input)))
              (skipFirstPage (pageLayout (options input))) qs)"
  shows "map_option snd (image_process env input) = Some (ErrorOutput PROCESSING_FAILED)"
proof -
  let ?n = "columns (pageLayout (options input)) * rows (pageLayout (options input))"
  let ?gs = "grouped_pages ?n (skipFirstPage (pageLayout (options input))) qs"
  let ?st = "updateProgress 15 (updateProgress 10 (updateProgress 5 reset))"
  from assms(9) have pos: "0 < ?n" by linarith
  from assms(9) have "?n \<noteq> 1" by linarith
  then have ne1: "(?n = 1) = False" by (rule eq_False [THEN iffD2])
  have bg: "build_pageGroups qs ?n (skipFirstPage (pageLayout (options input))) = Some ?gs"
    using pos by (rule build_pageGroups_grouped)
  have f: "snd (image_finish (grid_loop env (length ?gs) ?gs 0 [] ?st))
      = ErrorOutput PROCESSING_FAILED"
    by (rule image_finish_error) (rule grid_loop_fails_fast [OF assms(6,10)])
  have "image_process env input = Some (image_finish (grid_loop env (length ?gs) ?gs 0 [] ?st))"
    unfolding image_process_reaches_loops [OF assms(1-5,7,8)]
    by (simp only: ne1 if_False bg option.case)
  with f show ?thesis by simp
qed

text \<open>
  Claim C1, as stated: in every processor's page loop a page whose rendering fails is
  skipped, and the call succeeds with the other pages whenever one of them renders.  It
  fails for the PDF-to-image processor: with 10 pages of which only page 7 throws, the call
  resolves with \<open>PROCESSING_FAILED\<close>, not with a 9-item success.
\<close>

theorem image_page_failure_counterexample:
  "page_throws (image_env_with 10 [7]) 7
   \<and> \<not> list_ex (page_throws (image_env_with 10 [7])) [1, 2, 3, 4, 5, 6, 8, 9, 10]
   \<and> map_option snd (image_process (image_env_with 10 [7])
        \<lparr>files = [report_pdf],
         options = \<lparr>pages = [], pageLayout = \<lparr>columns = 1, rows = 1, skipFirstPage = False\<rparr>\<rparr>\<rparr>)
      = Some (ErrorOutput PROCESSING_FAILED)"
  by code_simp

text \<open>
  Claim C1, amended.  In the rasterize processor a page whose rendering fails is skipped:
  when the call reaches the loop, nobody cancels and the packaging does not fail, the image
  output mode resolves with a success holding exactly the selected pages that rendered, in
  order (one image, or an archive of them), and with \<open>PROCESSING_FAILED\<close> when none
  rendered; so does the PDF output mode when the first selected page renders, and it
  resolves with \<open>PROCESSING_FAILED\<close> when no page renders.  In the PDF-to-image processor
  the loops stop at the first failure: when a selected page (single page mode) or a group
  of the grid throws while rendering, the call resolves with \<open>PROCESSING_FAILED\<close>, whatever
  the other pages do.
\<close>

theorem page_failure_policy:
  "(length (files input) = 1 \<and> r_loadPdfjs env = Returns () \<and> r_getDocument env = Returns N
      \<and> \<not> r_cancelled_loaded env \<and> (\<forall>i. \<not> r_cancelled_at env i)
      \<and> r_import_jspdf env = Returns () \<and> r_zip env = Returns ()
      \<and> parsePageRange (case pageRange (options input) of None \<Rightarrow> [] | Some r \<Rightarrow> r) N = ps
      \<and> ps \<noteq> [] \<and> ok = filter (renders env (dpi (options input) / 72)) ps
    \<longrightarrow> (format (options input) \<noteq> PDF \<longrightarrow>
           snd (rasterize_process env input) =
             (if ok = [] then ErrorOutput PROCESSING_FAILED
              else if length ok = 1 then SuccessOutput (ImageBlob (ok ! 0))
              else SuccessOutput (ZipBlob ok)))
       \<and> (format (options input) = PDF \<and> renders env (dpi (options input) / 72) (ps ! 0) \<longrightarrow>
           snd (rasterize_process env input)
             = SuccessOutput (PdfBlob (map (page_of env (options input)) ok)))
       \<and> (format (options input) = PDF \<and> ok = [] \<longrightarrow>
           snd (rasterize_process env input) = ErrorOutput PROCESSING_FAILED))
   \<and> (length (files iinput) = 1 \<and> looks_like_pdf (files iinput ! 0)
      \<and> i_loadPdfjs ienv = Returns () \<and> \<not> i_cancelled_loaded ienv
      \<and> i_getDocument ienv = Returns M \<and> (\<forall>i. \<not> i_cancelled_at ienv i)
      \<and> pagesToConvert_of (pages (options iinput)) M = qs \<and> qs \<noteq> []
    \<longrightarrow> (columns (pageLayout (options iinput)) * rows (pageLayout (options iinput)) = 1
          \<and> list_ex (page_throws ienv) qs
          \<longrightarrow> map_option snd (image_process ienv iinput) = Some (ErrorOutput PROCESSING_FAILED))
       \<and> (1 < columns (pageLayout (options iinput)) * rows (pageLayout (options iinput))
          \<and> list_ex (group_throws ienv)
               (grouped_pages
                  (columns (pageLayout (options iinput)) * rows (pageLayout (options iinput)))
                  (skipFirstPage (pageLayout (options iinput))) qs)
          \<longrightarrow> map_option snd (image_process ienv iinput) = Some (ErrorOutput PROCESSING_FAILED)))"
proof (intro conjI impI)
  assume h: "length (files input) = 1 \<and> r_loadPdfjs env = Returns () \<and> r_getDocument env = Returns N
      \<and> \<not> r_cancelled_loaded env \<and> (\<forall>i. \<not> r_cancelled_at env i)
      \<and> r_import_jspdf env = Returns () \<and> r_zip env = Returns ()
      \<and> parsePageRange (case pageRange (options input) of None \<Rightarrow> [] | Some r \<Rightarrow> r) N = ps
      \<and> ps \<noteq> [] \<and> ok = filter (renders env (dpi (options input) / 72)) ps"
  then have one: "length (files input) = 1" and lib: "r_loadPdfjs env = Returns ()"
    and doc: "r_getDocument env = Returns N" and ncl: "\<not> r_cancelled_loaded env"
    and nc: "\<forall>i. \<not> r_cancelled_at env i" and zip: "r_zip env = Returns ()"
    and js: "r_import_jspdf env = Returns ()"
    and sel: "parsePageRange (case pageRange (options input) of None \<Rightarrow> [] | Some r \<Rightarrow> r) N = ps"
    and ne: "ps \<noteq> []"
    and ok: "ok = filter (renders env (dpi (options input) / 72)) ps"
    by blast+
  note reach = rasterize_process_reaches_loop [OF one lib doc ncl sel ne]
  {
    assume "format (options input) \<noteq> PDF"
    with reach rasterize_image_mode_result [OF nc zip ok]
    show "snd (rasterize_process env input) =
             (if ok = [] then ErrorOutput PROCESSING_FAILED
              else if length ok = 1 then SuccessOutput (ImageBlob (ok ! 0))
              else SuccessOutput (ZipBlob ok))"
      by simp
  next
    assume "format (options input) = PDF \<and> renders env (dpi (options input) / 72) (ps ! 0)"
    with reach rasterize_pdf_mode_result [OF nc js ne] ok
    show "snd (rasterize_process env input)
        = SuccessOutput (PdfBlob (map (page_of env (options input)) ok))"
      by simp
  next
    assume "format (options input) = PDF \<and> ok = []"
    with reach rasterize_pdf_mode_all_fail [OF nc js] ok
    show "snd (rasterize_process env input) = ErrorOutput PROCESSING_FAILED"
      by simp
  }
next
  assume "length (files iinput) = 1 \<and> looks_like_pdf (files iinput ! 0)
      \<and> i_loadPdfjs ienv = Returns () \<and> \<not> i_cancelled_loaded ienv
      \<and> i_getDocument ienv = Returns M \<and> (\<forall>i. \<not> i_cancelled_at ienv i)
      \<and> pagesToConvert_of (pages (options iinput)) M = qs \<and> qs \<noteq> []"
    and "columns (pageLayout (options iinput)) * rows (pageLayout (options iinput)) = 1
      \<and> list_ex (page_throws ienv) qs"
  then show "map_option snd (image_process ienv iinput) = Some (ErrorOutput PROCESSING_FAILED)"
    using image_process_single_fails_fast [of iinput ienv M qs] by blast
next
  assume "length (files iinput) = 1 \<and> looks_like_pdf (files iinput ! 0)
      \<and> i_loadPdfjs ienv = Returns () \<and> \<not> i_cancelled_loaded ienv
      \<and> i_getDocument ienv = Returns M \<and> (\<forall>i. \<not> i_cancelled_at ienv i)
      \<and> pagesToConvert_of (pages (options iinput)) M = qs \<and> qs \<noteq> []"
    and "1 < columns (pageLayout (options iinput)) * rows (pageLayout (options iinput))
      \<and> list_ex (group_throws ienv)
           (grouped_pages
              (columns (pageLayout (options iinput)) * rows (pageLayout (options iinput)))
              (skipFirstPage (pageLayout (options iinput))) qs)"
  then show "map_option snd (image_process ienv iinput) = Some (ErrorOutput PROCESSING_FAILED)"
    using image_process_grid_fails_fast [of iinput ienv M qs] by blast
qed


theorem page_failure_policy_witness:
  "parsePageRange [] 10 = [1, 2, 3, 4, 5, 6, 7, 8, 9, 10]
   \<and> filter (renders (rasterize_env_with 10 [7]) (150 / 72)) [1, 2, 3, 4, 5, 6, 7, 8, 9, 10]
       = [1, 2, 3, 4, 5, 6, 8, 9, 10]
   \<and> snd (rasterize_process (rasterize_env_with 10 [7])
        \<lparr>files = [report_pdf], options = \<lparr>dpi = 150, format = PNG, pageRange = None\<rparr>\<rparr>)
      = SuccessOutput (ZipBlob [1, 2, 3, 4, 5, 6, 8, 9, 10])
   \<and> renders (rasterize_env_with 3 [2]) (72 / 72) ([1, 2, 3] ! 0)
   \<and> snd (rasterize_process (rasterize_env_with 3 [2])
        \<lparr>files = [report_pdf], options = \<lparr>dpi = 72, format = PDF, pageRange = None\<rparr>\<rparr>)
      = SuccessOutput (PdfBlob
          [\<lparr>pg_source = 1, pg_widthMm = 2159 / 10, pg_heightMm = 2794 / 10, pg_landscape = False\<rparr>,
           \<lparr>pg_source = 3, pg_widthMm = 2159 / 10, pg_heightMm = 2794 / 10, pg_landscape = False\<rparr>])
   \<and> filter (renders (rasterize_env_with 2 [1, 2]) (72 / 72)) [1, 2] = []
   \<and> snd (rasterize_process (rasterize_env_with 2 [1, 2])
        \<lparr>files = [report_pdf], options = \<lparr>dpi = 72, format = PDF, pageRange = None\<rparr>\<rparr>)
      = ErrorOutput PROCESSING_FAILED
   \<and> list_ex (page_throws (image_env_with 10 [7])) [1, 2, 3, 4, 5, 6, 7, 8, 9, 10]
   \<and> map_option snd (image_process (image_env_with 10 [7])
        \<lparr>files = [report_pdf],
         options = \<lparr>pages = [], pageLayout = \<lparr>columns = 1, rows = 1, skipFirstPage = False\<rparr>\<rparr>\<rparr>)
      = Some (ErrorOutput PROCESSING_FAILED)
   \<and> list_ex (group_throws (image_env_with 5 [3])) (grouped_pages (2 * 2) True [1, 2, 3, 4, 5])
   \<and> map_option snd (image_process (image_env_with 5 [3])
        \<lparr>files = [report_pdf],
         options = \<lparr>pages = [], pageLayout = \<lparr>columns = 2, rows = 2, skipFirstPage = True\<rparr>\<rparr>\<rparr>)
      = Some (ErrorOutput PROCESSING_FAILED)"
proof -
  let ?ps = "[1, 2, 3, 4, 5, 6, 7, 8, 9, 10 :: int]"
  let ?ok = "[1, 2, 3, 4, 5, 6, 8, 9, 10 :: int]"
  let ?ienv = "image_env_with 10 [7]"
  let ?iinput = "\<lparr>files = [report_pdf],
    options = \<lparr>pages = [], pageLayout = \<lparr>columns = 1, rows = 1, skipFirstPage = False\<rparr>\<rparr>\<rparr>"
  have pdf: "looks_like_pdf report_pdf" by code_simp

  let ?env = "rasterize_env_with 10 [7]"
  let ?input = "\<lparr>files = [report_pdf], options = \<lparr>dpi = 150, format = PNG, pageRange = None\<rparr>\<rparr>"
  note t = page_failure_policy [of ?input ?env 10 ?ps ?ok ?iinput ?ienv 10 ?ps]
  have sel: "parsePageRange [] 10 = ?ps" by code_simp
  have flt: "filter (renders ?env (150 / 72)) ?ps = ?ok" by code_simp
  have env: "r_loadPdfjs ?env = Returns () \<and> r_getDocument ?env = Returns 10
      \<and> \<not> r_cancelled_loaded ?env \<and> (\<forall>i. \<not> r_cancelled_at ?env i)
      \<and> r_import_jspdf ?env = Returns () \<and> r_zip ?env = Returns ()"
    by (simp add: rasterize_env_with_def)
  have inp: "length (files ?input) = 1
      \<and> parsePageRange (case pageRange (options ?input) of None \<Rightarrow> [] | Some r \<Rightarrow> r) 10 = ?ps
      \<and> ?ps \<noteq> []"
    using sel by simp
  have okf: "?ok = filter (renders ?env (dpi (options ?input) / 72)) ?ps"
    by (simp only: ProcessInput.select_convs RasterizePDFOptions.select_convs flt)
  have fmt: "format (options ?input) \<noteq> PDF" by simp
  from t env inp okf fmt have "snd (rasterize_process ?env ?input) =
      (if ?ok = [] then ErrorOutput PROCESSING_FAILED
       else if length ?ok = 1 then SuccessOutput (ImageBlob (?ok ! 0))
       else SuccessOutput (ZipBlob ?ok))"
    by blast
  then have a: "snd (rasterize_process ?env ?input) = SuccessOutput (ZipBlob ?ok)"
    by simp

  let ?env2 = "rasterize_env_with 3 [2]"
  let ?input2 = "\<lparr>files = [report_pdf], options = \<lparr>dpi = 72, format = PDF, pageRange = None\<rparr>\<rparr>"
  note t2 = page_failure_policy [of ?input2 ?env2 3 "[1, 2, 3]" "[1, 3]" ?iinput ?ienv 10 ?ps]
  have sel2: "parsePageRange [] 3 = [1, 2, 3]" by code_simp
  have flt2: "filter (renders ?env2 (72 / 72)) [1, 2, 3] = [1, 3]" by code_simp
  have fst2: "renders ?env2 (72 / 72) ([1, 2, 3] ! 0)" by code_simp
  have pgs2: "map (page_of ?env2 (options ?input2)) [1, 3] =
      [\<lparr>pg_source = 1, pg_widthMm = 2159 / 10, pg_heightMm = 2794 / 10, pg_landscape = False\<rparr>,
       \<lparr>pg_source = 3, pg_widthMm = 2159 / 10, pg_heightMm = 2794 / 10, pg_landscape = False\<rparr>]"
    by code_simp
  have env2: "r_loadPdfjs ?env2 = Returns () \<and> r_getDocument ?env2 = Returns 3
      \<and> \<not> r_cancelled_loaded ?env2 \<and> (\<forall>i. \<not> r_cancelled_at ?env2 i)
      \<and> r_import_jspdf ?env2 = Returns () \<and> r_zip ?env2 = Returns ()"
    by (simp add: rasterize_env_with_def)
  have inp2: "length (files ?input2) = 1
      \<and> parsePageRange (case pageRange (options ?input2) of None \<Rightarrow> [] | Some r \<Rightarrow> r) 3 = [1, 2, 3]
      \<and> [1, 2, 3 :: int] \<noteq> []"
    using sel2 by simp
  have okf2: "[1, 3] = filter (renders ?env2 (dpi (options ?input2) / 72)) [1, 2, 3]"
    by (simp only: ProcessInput.select_convs RasterizePDFOptions.select_convs flt2)
  have fmt2: "format (options ?input2) = PDF
      \<and> renders ?env2 (dpi (options ?input2) / 72) ([1, 2, 3] ! 0)"
    using fst2 by (simp only: ProcessInput.select_convs RasterizePDFOptions.select_convs simp_thms)
  from t2 env2 inp2 okf2 fmt2 have "snd (rasterize_process ?env2 ?input2)
      = SuccessOutput (PdfBlob (map (page_of ?env2 (options ?input2)) [1, 3]))"
    by blast
  then have b: "snd (rasterize_process ?env2 ?input2) = SuccessOutput (PdfBlob
      [\<lparr>pg_source = 1, pg_widthMm = 2159 / 10, pg_heightMm = 2794 / 10, pg_landscape = False\<rparr>,
       \<lparr>pg_source = 3, pg_widthMm = 2159 / 10, pg_heightMm = 2794 / 10, pg_landscape = False\<rparr>])"
    by (simp only: pgs2)

  let ?env3 = "rasterize_env_with 2 [1, 2]"
  note t3 = page_failure_policy [of ?input2 ?env3 2 "[1, 2]" "[]" ?iinput ?ienv 10 ?ps]
  have sel3: "parsePageRange [] 2 = [1, 2]" by code_simp
  have flt3: "filter (renders ?env3 (72 / 72)) [1, 2] = []" by code_simp
  have env3: "r_loadPdfjs ?env3 = Returns () \<and> r_getDocument ?env3 = Returns 2
      \<and> \<not> r_cancelled_loaded ?env3 \<and> (\<forall>i. \<not> r_cancelled_at ?env3 i)
      \<and> r_import_jspdf ?env3 = Returns () \<and> r_zip ?env3 = Returns ()"
    by (simp add: rasterize_env_with_def)
  have inp3: "length (files ?input2) = 1
      \<and> parsePageRange (case pageRange (options ?input2) of None \<Rightarrow> [] | Some r \<Rightarrow> r) 2 = [1, 2]
      \<and> [1, 2 :: int] \<noteq> []"
    using sel3 by simp
  have okf3: "[] = filter (renders ?env3 (dpi (options ?input2) / 72)) [1, 2]"
    by (simp only: ProcessInput.select_convs RasterizePDFOptions.select_convs flt3)
  have fmt3: "format (options ?input2) = PDF \<and> ([] :: int list) = []" by simp
  from t3 env3 inp3 okf3 fmt3
  have c: "snd (rasterize_process ?env3 ?input2) = ErrorOutput PROCESSING_FAILED"
    by blast

  have thr: "list_ex (page_throws ?ienv) ?ps" by code_simp
  have cnv: "pagesToConvert_of [] 10 = ?ps" by code_simp
  have h2: "length (files ?iinput) = 1 \<and> looks_like_pdf (files ?iinput ! 0)
      \<and> i_loadPdfjs ?ienv = Returns () \<and> \<not> i_cancelled_loaded ?ienv
      \<and> i_getDocument ?ienv = Returns 10 \<and> (\<forall>i. \<not> i_cancelled_at ?ienv i)
      \<and> pagesToConvert_of (pages (options ?iinput)) 10 = ?ps \<and> ?ps \<noteq> []"
    by (simp add: image_env_with_def cnv pdf)
  have h3: "columns (pageLayout (options ?iinput)) * rows (pageLayout (options ?iinput)) = 1
      \<and> list_ex (page_throws ?ienv) ?ps"
    using thr by simp
  from t h2 h3
  have d: "map_option snd (image_process ?ienv ?iinput) = Some (ErrorOutput PROCESSING_FAILED)"
    by blast

  let ?genv = "image_env_with 5 [3]"
  let ?ginput = "\<lparr>files = [report_pdf],
    options = \<lparr>pages = [], pageLayout = \<lparr>columns = 2, rows = 2, skipFirstPage = True\<rparr>\<rparr>\<rparr>"
  note t4 = page_failure_policy [of ?input ?env 10 ?ps ?ok ?ginput ?genv 5 "[1, 2, 3, 4, 5]"]
  have gthr: "list_ex (group_throws ?genv) (grouped_pages (2 * 2) True [1, 2, 3, 4, 5])"
    by code_simp
  have cnv4: "pagesToConvert_of [] 5 = [1, 2, 3, 4, 5]" by code_simp
  have h4: "length (files ?ginput) = 1 \<and> looks_like_pdf (files ?ginput ! 0)
      \<and> i_loadPdfjs ?genv = Returns () \<and> \<not> i_cancelled_loaded ?genv
      \<and> i_getDocument ?genv = Returns 5 \<and> (\<forall>i. \<not> i_cancelled_at ?genv i)
      \<and> pagesToConvert_of (pages (options ?ginput)) 5 = [1, 2, 3, 4, 5]
      \<and> [1, 2, 3, 4, 5 :: int] \<noteq> []"
    by (simp add: image_env_with_def cnv4 pdf)
  have h5: "1 < columns (pageLayout (options ?ginput)) * rows (pageLayout (options ?ginput))
      \<and> list_ex (group_throws ?genv)
           (grouped_pages
              (columns (pageLayout (options ?ginput)) * rows (pageLayout (options ?ginput)))
              (skipFirstPage (pageLayout (options ?ginput))) [1, 2, 3, 4, 5])"
    using gthr
    by (simp only: ProcessInput.select_convs PDFToImageOptions.select_convs
          PageLayoutOptions.select_convs) simp
  from t4 h4 h5
  have e: "map_option snd (image_process ?genv ?ginput) = Some (ErrorOutput PROCESSING_FAILED)"
    by blast

  from sel flt a fst2 b flt3 c thr d gthr e show ?thesis by blast
qed

section \<open>An empty page selection\<close>

lemma image_process_empty_selection:
  assumes "length (files input) = 1" and "looks_like_pdf (files input ! 0)"
    and "i_loadPdfjs env = Returns ()" and "\<not> i_cancelled_loaded env"
    and "i_getDocument env = Returns N"
    and "pagesToConvert_of (pages (options input)) N = []"
  shows "image_process env input
     = Some (updateProgress 10 (updateProgress 5 reset), ErrorOutput INVALID_PAGE_RANGE)"
  using assms by (simp add: image_process_def Let_def)

lemma rasterize_process_empty_selection:
  assumes "length (files input) = 1" and "r_loadPdfjs env = Returns ()"
    and "r_getDocument env = Returns N" and "\<not> r_cancelled_loaded env"
    and "parsePageRange (case pageRange (options input) of None \<Rightarrow> [] | Some r \<Rightarrow> r) N = []"
  shows "rasterize_process env input
     = (updateProgress 10 (updateProgress 10 (updateProgress 5 reset)), ErrorOutput INVALID_OPTIONS)"
  using assms by (simp add: rasterize_process_def Let_def)

text \<open>
  Claim C8, as stated: every processor that resolves a page selection answers an empty
  selection on a document with pages by \<open>INVALID_PAGE_RANGE\<close>.  It fails for the rasterize
  processor: with 5 pages and the range \<open>"99"\<close> the selection is empty and the code of the
  error envelope is \<open>INVALID_OPTIONS\<close>.
\<close>

theorem rasterize_empty_selection_counterexample:
  "parsePageRange ''99'' 5 = []
   \<and> snd (rasterize_process (rasterize_env_with 5 [])
        \<lparr>files = [report_pdf], options = \<lparr>dpi = 150, format = PNG, pageRange = Some ''99''\<rparr>\<rparr>)
      = ErrorOutput INVALID_OPTIONS
   \<and> snd (rasterize_process (rasterize_env_with 5 [])
        \<lparr>files = [report_pdf], options = \<lparr>dpi = 150, format = PNG, pageRange = Some ''99''\<rparr>\<rparr>)
      \<noteq> ErrorOutput INVALID_PAGE_RANGE"
  by code_simp

text \<open>
  Claim C8, amended.  When the document has at least one page and the resolved selection
  is empty, the PDF-to-image processor returns an error envelope with code
  \<open>INVALID_PAGE_RANGE\<close> and the rasterize processor returns an error envelope with code
  \<open>INVALID_OPTIONS\<close>; in both the call ends before any page is rendered, with the progress
  reported so far.
\<close>

theorem empty_selection_error_codes:
  "(length (files iinput) = 1 \<and> looks_like_pdf (files iinput ! 0)
      \<and> i_loadPdfjs ienv = Returns () \<and> \<not> i_cancelled_loaded ienv
      \<and> i_getDocument ienv = Returns M \<and> 1 \<le> M
      \<and> pagesToConvert_of (pages (options iinput)) M = []
    \<longrightarrow> image_process ienv iinput
          = Some (updateProgress 10 (updateProgress 5 reset), ErrorOutput INVALID_PAGE_RANGE))
   \<and> (length (files input) = 1 \<and> r_loadPdfjs env = Returns ()
      \<and> r_getDocument env = Returns N \<and> 1 \<le> N \<and> \<not> r_cancelled_loaded env
      \<and> parsePageRange (case pageRange (options input) of None \<Rightarrow> [] | Some r \<Rightarrow> r) N = []
    \<longrightarrow> rasterize_process env input
          = (updateProgress 10 (updateProgress 10 (updateProgress 5 reset)),
             ErrorOutput INVALID_OPTIONS))"
  using image_process_empty_selection [of iinput ienv M]
    rasterize_process_empty_selection [of input env N]
  by blast

theorem empty_selection_error_codes_witness:
  "pagesToConvert_of [0, 9] 5 = []
   \<and> map_option snd (image_process (image_env_with 5 [])
        \<lparr>files = [report_pdf],
         options = \<lparr>pages = [0, 9], pageLayout = \<lparr>columns = 1, rows = 1, skipFirstPage = False\<rparr>\<rparr>\<rparr>)
      = Some (ErrorOutput INVALID_PAGE_RANGE)
   \<and> parsePageRange ''0,9'' 5 = []
   \<and> snd (rasterize_process (rasterize_env_with 5 [])
        \<lparr>files = [report_pdf], options = \<lparr>dpi = 150, format = PNG, pageRange = Some ''0,9''\<rparr>\<rparr>)
      = ErrorOutput INVALID_OPTIONS"
proof -
  let ?env = "rasterize_env_with 5 []"
  let ?input = "\<lparr>files = [report_pdf],
    options = \<lparr>dpi = 150, format = PNG, pageRange = Some ''0,9''\<rparr>\<rparr>"
  let ?ienv = "image_env_with 5 []"
  let ?iinput = "\<lparr>files = [report_pdf],
    options = \<lparr>pages = [0, 9], pageLayout = \<lparr>columns = 1, rows = 1, skipFirstPage = False\<rparr>\<rparr>\<rparr>"
  note t = empty_selection_error_codes [of ?iinput ?ienv 5 ?input ?env 5]
  have cnv: "pagesToConvert_of [0, 9] 5 = []" by code_simp
  have sel: "parsePageRange ''0,9'' 5 = []" by code_simp
  have pdf: "looks_like_pdf report_pdf" by code_simp
  have h1: "length (files ?iinput) = 1 \<and> looks_like_pdf (files ?iinput ! 0)
      \<and> i_loadPdfjs ?ienv = Returns () \<and> \<not> i_cancelled_loaded ?ienv
      \<and> i_getDocument ?ienv = Returns 5 \<and> (1::int) \<le> 5
      \<and> pagesToConvert_of (pages (options ?iinput)) 5 = []"
    by (simp add: image_env_with_def cnv pdf)
  have h2: "length (files ?input) = 1 \<and> r_loadPdfjs ?env = Returns ()
      \<and> r_getDocument ?env = Returns 5 \<and> (1::int) \<le> 5 \<and> \<not> r_cancelled_loaded ?env
      \<and> parsePageRange (case pageRange (options ?input) of None \<Rightarrow> [] | Some r \<Rightarrow> r) 5 = []"
    by (simp add: rasterize_env_with_def sel)
  from t h1 have "image_process ?ienv ?iinput
      = Some (updateProgress 10 (updateProgress 5 reset), ErrorOutput INVALID_PAGE_RANGE)"
    by blast
  then have a: "map_option snd (image_process ?ienv ?iinput) = Some (ErrorOutput INVALID_PAGE_RANGE)"
    by simp
  from t h2 have "rasterize_process ?env ?input
      = (updateProgress 10 (updateProgress 10 (updateProgress 5 reset)),
         ErrorOutput INVALID_OPTIONS)"
    by blast
  then have b: "snd (rasterize_process ?env ?input) = ErrorOutput INVALID_OPTIONS"
    by simp
  from cnv a sel b show ?thesis by blast
qed

section \<open>The first page of the PDF output mode, and the file type\<close>

text \<open>In the PDF output mode, once the first selected page has failed the document is never
  created: whatever the later pages do, the call resolves with \<open>PROCESSING_FAILED\<close>.\<close>

lemma pdf_loop_stays_null:
  assumes "\<forall>i. \<not> r_cancelled_at env i" and "0 < i"
  shows "snd (pdf_loop env opts n ps i None st) = Inr None"
  using assms
proof (induction ps arbitrary: i st)
  case Nil
  show ?case by simp
next
  case (Cons p ps)
  then show ?case by (simp add: Let_def split: outcome.split)
qed

lemma rasterize_pdf_mode_first_page_fails:
  assumes "\<forall>i. \<not> r_cancelled_at env i" and "r_import_jspdf env = Returns ()"
    and "ps \<noteq> []" and "\<not> renders env (dpi opts / 72) (ps ! 0)"
  shows "snd (rasterize_pdf_mode env opts ps st) = ErrorOutput PROCESSING_FAILED"
proof -
  from assms(3) obtain p rest where ps: "ps = p # rest" by (cases ps) auto
  with assms(4) obtain m where m: "r_render env p (dpi opts / 72) = Throws m"
    by (cases "r_render env p (dpi opts / 72)") (simp_all add: renders_def)
  have one: "0 < Suc 0" by simp
  note rest = pdf_loop_stays_null [OF assms(1) one, of opts "length ps" rest]
  obtain st' r where lp: "pdf_loop env opts (length ps) ps 0 None st = (st', r)"
    by (cases "pdf_loop env opts (length ps) ps 0 None st")
  have "snd (pdf_loop env opts (length ps) ps 0 None st) = Inr None"
    unfolding ps using assms(1) m rest [unfolded ps] by (simp add: Let_def)
  with lp have "r = Inr None" by simp
  with lp assms(2) show ?thesis by (simp add: rasterize_pdf_mode_def)
qed

text \<open>
  Claim C9.  In the combined PDF output mode the output document is to be started from the
  first page that renders, so that a failure of the first selected page does not keep the
  later pages out.  The code starts the document in the iteration \<open>i === 0\<close> only: with 3
  pages of which page 1 throws while pages 2 and 3 render, every later \<open>addPage\<close> hits
  \<open>null\<close> and the call resolves with \<open>PROCESSING_FAILED\<close>; when it is page 2 that throws,
  pages 1 and 3 are in the output, each with its own size.
\<close>

theorem rasterize_pdf_first_page_failure:
  "renders (rasterize_env_with 3 [1]) 1 2 \<and> renders (rasterize_env_with 3 [1]) 1 3
   \<and> snd (rasterize_process (rasterize_env_with 3 [1])
        \<lparr>files = [report_pdf], options = \<lparr>dpi = 72, format = PDF, pageRange = None\<rparr>\<rparr>)
      = ErrorOutput PROCESSING_FAILED
   \<and> snd (rasterize_process (rasterize_env_with 3 [2])
        \<lparr>files = [report_pdf], options = \<lparr>dpi = 72, format = PDF, pageRange = None\<rparr>\<rparr>)
      = SuccessOutput (PdfBlob
          [\<lparr>pg_source = 1, pg_widthMm = 2159 / 10, pg_heightMm = 2794 / 10, pg_landscape = False\<rparr>,
           \<lparr>pg_source = 3, pg_widthMm = 2159 / 10, pg_heightMm = 2794 / 10, pg_landscape = False\<rparr>])"
  by code_simp

text \<open>The rasterize and the watermark processor never answer \<open>FILE_TYPE_INVALID\<close>; the
  PDF-to-image and the PDF-to-DOCX processor answer it for a single file that does not look
  like a PDF, before anything is loaded.\<close>

lemma image_loop_code: "snd (image_loop env scale n ps i images st) = Inl code \<Longrightarrow> code = PROCESSING_CANCELLED"
  by (induction ps arbitrary: i images st) (auto simp: Let_def split: if_splits outcome.splits)

lemma pdf_loop_code: "snd (pdf_loop env opts n ps i pdfOutput st) = Inl code \<Longrightarrow> code = PROCESSING_CANCELLED"
  by (induction ps arbitrary: i pdfOutput st)
    (auto simp: Let_def split: if_splits outcome.splits option.splits)

lemma rasterize_catch_code: "rasterize_catch m \<noteq> ErrorOutput FILE_TYPE_INVALID"
  by (simp add: rasterize_catch_def)

lemma rasterize_never_checks_type:
  "snd (rasterize_process env input) \<noteq> ErrorOutput FILE_TYPE_INVALID"
proof
  assume a: "snd (rasterize_process env input) = ErrorOutput FILE_TYPE_INVALID"
  have img: "snd (rasterize_image_mode env opts ps st) \<noteq> ErrorOutput FILE_TYPE_INVALID" for opts ps st
  proof -
    obtain st1 r where lp: "image_loop env (dpi opts / 72) (length ps) ps 0 [] st = (st1, r)"
      by (cases "image_loop env (dpi opts / 72) (length ps) ps 0 [] st")
    with image_loop_code [of env "dpi opts / 72" "length ps" ps 0 "[]" st] show ?thesis
      by (auto simp: rasterize_image_mode_def Let_def rasterize_catch_code
            split: sum.splits outcome.splits)
  qed
  have pdf: "snd (rasterize_pdf_mode env opts ps st) \<noteq> ErrorOutput FILE_TYPE_INVALID" for opts ps st
  proof -
    obtain st1 r where lp: "pdf_loop env opts (length ps) ps 0 None st = (st1, r)"
      by (cases "pdf_loop env opts (length ps) ps 0 None st")
    with pdf_loop_code [of env opts "length ps" ps 0 None st] show ?thesis
      by (auto simp: rasterize_pdf_mode_def rasterize_catch_code
            split: sum.splits outcome.splits option.splits)
  qed
  from a img pdf show False
    by (auto simp: rasterize_process_def Let_def rasterize_catch_code
          split: if_splits outcome.splits)
qed

lemma watermark_loop_code:
  "snd (watermark_loop env n ps i marked st) = Inl code
     \<Longrightarrow> code = PROCESSING_CANCELLED \<or> code = PROCESSING_FAILED"
  by (induction ps arbitrary: i marked st) (auto split: if_splits outcome.splits)

lemma watermark_never_checks_type:
  "snd (watermark_process env input) \<noteq> ErrorOutput FILE_TYPE_INVALID"
proof
  assume a: "snd (watermark_process env input) = ErrorOutput FILE_TYPE_INVALID"
  have lp: "watermark_loop env n ps 0 [] st \<noteq> (st1, Inl FILE_TYPE_INVALID)" for n ps st st1
    using watermark_loop_code [of env n ps 0 "[]" st FILE_TYPE_INVALID] by auto
  from a show False
    using lp
    by (auto simp: watermark_process_def Let_def
          split: if_splits outcome.splits sum.splits prod.splits)
qed

lemma checking_processors_reject_other_types:
  assumes "length (files input) = 1" and "\<not> looks_like_pdf (files input ! 0)"
  shows "image_process ienv \<lparr>files = files input, options = iopts\<rparr>
           = Some (reset, ErrorOutput FILE_TYPE_INVALID)"
    and "docx_process denv proc \<lparr>files = files input, options = ()\<rparr>
           = Some (proc, reset, ErrorOutput FILE_TYPE_INVALID)"
  using assms by (simp_all add: image_process_def docx_process_def Let_def)

text \<open>
  Claim C7.  A single file that has neither a PDF MIME type nor a \<open>.pdf\<close> extension is to be
  answered by \<open>FILE_TYPE_INVALID\<close> before any parsing.  The PDF-to-image and PDF-to-DOCX
  processors do so; the rasterize and the watermark processor have no such check: given
  \<open>notes.txt\<close> of type \<open>text/plain\<close> whose bytes parse as a 3-page document, they load,
  render or draw, and succeed.
\<close>

theorem file_type_not_checked:
  "\<not> looks_like_pdf notes_txt
   \<and> snd (rasterize_process (rasterize_env_with 3 [])
        \<lparr>files = [notes_txt], options = \<lparr>dpi = 150, format = PNG, pageRange = None\<rparr>\<rparr>)
      = SuccessOutput (ZipBlob [1, 2, 3])
   \<and> watermark_process (watermark_env_ok 3) \<lparr>files = [notes_txt], options = PageWord ''all''\<rparr>
      = (\<lparr>progress = 100, reported = [10, 20, 30, 50, 70, 90, 95, 100]\<rparr>, SuccessOutput [0, 1, 2])
   \<and> image_process (image_env_with 3 [])
        \<lparr>files = [notes_txt],
         options = \<lparr>pages = [], pageLayout = \<lparr>columns = 1, rows = 1, skipFirstPage = False\<rparr>\<rparr>\<rparr>
      = Some (reset, ErrorOutput FILE_TYPE_INVALID)
   \<and> docx_process (docx_env_with python_ok) fresh_processor \<lparr>files = [notes_txt], options = ()\<rparr>
      = Some (fresh_processor, reset, ErrorOutput FILE_TYPE_INVALID)"
  by code_simp

section \<open>Progress reporting of the in-process processors\<close>

lemma below_mono: "below v st \<Longrightarrow> v \<le> w \<Longrightarrow> below w st"
  by (auto simp: below_def)

lemma below_update:
  assumes "below v st" and "v \<le> w" and "0 \<le> w" and "w \<le> 100"
  shows "below w (updateProgress w st)"
  using assms by (auto simp: below_def updateProgress_def Let_def sorted_append)

lemma below_reset: "below v reset"
  by (simp add: below_def reset_def)

lemma last_update: "0 \<le> w \<Longrightarrow> w \<le> 100 \<Longrightarrow> last (reported (updateProgress w st)) = w"
  by (simp add: updateProgress_def Let_def)

lemma ratio_le_one: "i \<le> n \<Longrightarrow> (of_nat i :: rat) / of_nat n \<le> 1"
  by (cases "n = 0") (simp_all add: divide_le_eq_1)

lemma ratio_mono: "(of_nat i :: rat) / of_nat n \<le> of_nat (Suc i) / of_nat n"
  by (rule divide_right_mono) simp_all

lemma raster_scale:
  fixes r :: rat
  assumes "0 \<le> r" and "r \<le> 1"
  shows "0 \<le> 15 + r * 75" and "15 + r * 75 \<le> 90" and "15 + r * 75 \<le> 100"
  using assms by auto

lemma raster_value_bounds:
  assumes "i \<le> n"
  shows "(0::rat) \<le> 15 + (of_nat i / of_nat n) * 75"
    and "15 + (of_nat i / of_nat n) * 75 \<le> (90::rat)"
    and "15 + (of_nat i / of_nat n) * 75 \<le> (100::rat)"
proof -
  have z: "(0::rat) \<le> of_nat i / of_nat n" by simp
  note o = ratio_le_one [OF assms]
  show "(0::rat) \<le> 15 + (of_nat i / of_nat n) * 75" using z o by (rule raster_scale(1))
  show "15 + (of_nat i / of_nat n) * 75 \<le> (90::rat)" using z o by (rule raster_scale(2))
  show "15 + (of_nat i / of_nat n) * 75 \<le> (100::rat)" using z o by (rule raster_scale(3))
qed

lemma raster_value_mono:
  "15 + (of_nat i / of_nat n) * 75 \<le> (15 + (of_nat (Suc i) / of_nat n) * 75 :: rat)"
proof -
  have "(of_nat i / of_nat n) * 75 \<le> (of_nat (Suc i) / of_nat n) * (75 :: rat)"
    using ratio_mono [of i n] by (rule mult_right_mono) simp
  then show ?thesis by (rule add_left_mono)
qed

lemma image_loop_below:
  assumes "below (15 + (of_nat i / of_nat n) * 75) st" and "i + length ps \<le> n"
  shows "below 90 (fst (image_loop env scale n ps i images st))"
  using assms
proof (induction ps arbitrary: i images st)
  case Nil
  then have "i \<le> n" by simp
  from below_mono [OF Nil.prems(1) raster_value_bounds(2) [OF this]] show ?case by simp
next
  case (Cons p ps)
  then have le: "i \<le> n" and nxt: "Suc i + length ps \<le> n" by simp_all
  let ?v = "15 + (of_nat i / of_nat n) * 75 :: rat"
  let ?st = "updateProgress ?v st"
  have b: "below ?v ?st"
    using Cons.prems(1) order_refl raster_value_bounds(1,3) [OF le] by (rule below_update)
  from b raster_value_mono
  have b': "below (15 + (of_nat (Suc i) / of_nat n) * 75) ?st" by (rule below_mono)
  note ih = Cons.IH [OF b' nxt]
  show ?case
  proof (cases "r_cancelled_at env i")
    case True
    with below_mono [OF Cons.prems(1) raster_value_bounds(2) [OF le]] show ?thesis by simp
  next
    case False
    with ih show ?thesis by (simp add: Let_def split: outcome.split)
  qed
qed

lemma pdf_loop_below:
  assumes "below (15 + (of_nat i / of_nat n) * 75) st" and "i + length ps \<le> n"
  shows "below 90 (fst (pdf_loop env opts n ps i pdfOutput st))"
  using assms
proof (induction ps arbitrary: i pdfOutput st)
  case Nil
  then have "i \<le> n" by simp
  from below_mono [OF Nil.prems(1) raster_value_bounds(2) [OF this]] show ?case by simp
next
  case (Cons p ps)
  then have le: "i \<le> n" and nxt: "Suc i + length ps \<le> n" by simp_all
  let ?v = "15 + (of_nat i / of_nat n) * 75 :: rat"
  let ?st = "updateProgress ?v st"
  have b: "below ?v ?st"
    using Cons.prems(1) order_refl raster_value_bounds(1,3) [OF le] by (rule below_update)
  from b raster_value_mono
  have b': "below (15 + (of_nat (Suc i) / of_nat n) * 75) ?st" by (rule below_mono)
  note ih = Cons.IH [OF b' nxt]
  show ?case
  proof (cases "r_cancelled_at env i")
    case True
    with below_mono [OF Cons.prems(1) raster_value_bounds(2) [OF le]] show ?thesis by simp
  next
    case False
    with ih show ?thesis by (auto simp: Let_def split: outcome.split option.split)
  qed
qed


lemma contract_error: "below v st \<Longrightarrow> v < 100 \<Longrightarrow> progress_contract st (ErrorOutput code)"
  by (auto simp: below_def progress_contract_def)

lemma contract_success:
  "below v st \<Longrightarrow> v \<le> 100 \<Longrightarrow> progress_contract (updateProgress 100 st) (SuccessOutput r)"
  by (auto simp: below_def progress_contract_def updateProgress_def Let_def sorted_append)

lemma contract_catch: "below v st \<Longrightarrow> v < 100 \<Longrightarrow> progress_contract st (rasterize_catch m)"
  by (simp add: rasterize_catch_def contract_error)

lemma below_step: "below v st \<Longrightarrow> v \<le> w \<Longrightarrow> 0 \<le> w \<Longrightarrow> w \<le> 100 \<Longrightarrow> below w (updateProgress w st)"
  by (rule below_update)

lemma rasterize_image_mode_contract:
  assumes "below 15 st"
  shows "progress_contract (fst (rasterize_image_mode env opts ps st))
           (snd (rasterize_image_mode env opts ps st))"
proof -
  obtain st1 r where lp: "image_loop env (dpi opts / 72) (length ps) ps 0 [] st = (st1, r)"
    by (cases "image_loop env (dpi opts / 72) (length ps) ps 0 [] st")
  from assms have "below (15 + (of_nat 0 / of_nat (length ps)) * 75) st" by simp
  then have "below 90 (fst (image_loop env (dpi opts / 72) (length ps) ps 0 [] st))"
    by (rule image_loop_below) simp
  with lp have b1: "below 90 st1" by simp
  then have b2: "below 92 (updateProgress 92 st1)" by (rule below_step) simp_all
  show ?thesis
  proof (cases r)
    case (Inl code)
    with lp b1 show ?thesis
      by (simp add: rasterize_image_mode_def contract_error [of 90])
  next
    case (Inr images)
    with lp b1 b2 show ?thesis
      by (auto simp: rasterize_image_mode_def Let_def contract_error [of 90] contract_success [of 92]
            contract_catch [of 92] split: outcome.split)
  qed
qed

lemma rasterize_pdf_mode_contract:
  assumes "below 15 st"
  shows "progress_contract (fst (rasterize_pdf_mode env opts ps st))
           (snd (rasterize_pdf_mode env opts ps st))"
proof -
  obtain st1 r where lp: "pdf_loop env opts (length ps) ps 0 None st = (st1, r)"
    by (cases "pdf_loop env opts (length ps) ps 0 None st")
  from assms have "below (15 + (of_nat 0 / of_nat (length ps)) * 75) st" by simp
  then have "below 90 (fst (pdf_loop env opts (length ps) ps 0 None st))"
    by (rule pdf_loop_below) simp
  with lp have b1: "below 90 st1" by simp
  then have b2: "below 92 (updateProgress 92 st1)" by (rule below_step) simp_all
  show ?thesis
  proof (cases "r_import_jspdf env")
    case (Throws m)
    with assms show ?thesis
      by (simp add: rasterize_pdf_mode_def contract_catch [of 15])
  next
    case (Returns u)
    with lp b1 b2 show ?thesis
      by (auto simp: rasterize_pdf_mode_def contract_error [of 90] contract_success [of 92]
            split: sum.split option.split)
  qed
qed

lemma rasterize_process_contract:
  "progress_contract (fst (rasterize_process env input)) (snd (rasterize_process env input))"
proof -
  have b0: "below 0 reset" by (rule below_reset)
  then have b5: "below 5 (updateProgress 5 reset)" by (rule below_step) simp_all
  then have b10: "below 10 (updateProgress 10 (updateProgress 5 reset))"
    by (rule below_step) simp_all
  then have b10': "below 10 (updateProgress 10 (updateProgress 10 (updateProgress 5 reset)))"
    by (rule below_step) simp_all
  then have b15: "below 15 (updateProgress 15 (updateProgress 10 (updateProgress 10
      (updateProgress 5 reset))))"
    by (rule below_step) simp_all
  note modes = rasterize_image_mode_contract [OF b15] rasterize_pdf_mode_contract [OF b15]
  show ?thesis
    using modes
    by (auto simp: rasterize_process_def Let_def contract_error [OF b0] contract_error [OF b5]
          contract_error [OF b10] contract_error [OF b10'] contract_catch [OF b5]
          contract_catch [OF b10]
          split: outcome.split)
qed


lemma grid_scale:
  fixes r :: rat
  assumes "0 \<le> r" and "r \<le> 1"
  shows "0 \<le> 15 + r * 80" and "15 + r * 80 \<le> 95" and "15 + r * 80 \<le> 100"
  using assms by auto

lemma image_value_eq: "15 + of_nat i * (80 / of_nat n) = (15 + (of_nat i / of_nat n) * 80 :: rat)"
  by simp

lemma image_value_bounds:
  assumes "i \<le> n"
  shows "(0::rat) \<le> 15 + of_nat i * (80 / of_nat n)"
    and "15 + of_nat i * (80 / of_nat n) \<le> (95::rat)"
    and "15 + of_nat i * (80 / of_nat n) \<le> (100::rat)"
proof -
  have z: "(0::rat) \<le> of_nat i / of_nat n" by simp
  note o = ratio_le_one [OF assms]
  show "(0::rat) \<le> 15 + of_nat i * (80 / of_nat n)"
    unfolding image_value_eq using z o by (rule grid_scale(1))
  show "15 + of_nat i * (80 / of_nat n) \<le> (95::rat)"
    unfolding image_value_eq using z o by (rule grid_scale(2))
  show "15 + of_nat i * (80 / of_nat n) \<le> (100::rat)"
    unfolding image_value_eq using z o by (rule grid_scale(3))
qed

lemma image_value_mono:
  "15 + of_nat i * (80 / of_nat n) \<le> (15 + of_nat (Suc i) * (80 / of_nat n) :: rat)"
proof -
  have "of_nat i * (80 / of_nat n) \<le> of_nat (Suc i) * (80 / of_nat n :: rat)"
    by (rule mult_right_mono) simp_all
  then show ?thesis by (rule add_left_mono)
qed

lemma single_loop_below:
  assumes "below (15 + of_nat i * (80 / of_nat n)) st" and "i + length ps \<le> n"
  shows "below 95 (fst (single_loop env n ps i images st))"
  using assms
proof (induction ps arbitrary: i images st)
  case Nil
  then have "i \<le> n" by simp
  from below_mono [OF Nil.prems(1) image_value_bounds(2) [OF this]] show ?case by simp
next
  case (Cons p ps)
  then have le: "i \<le> n" and nxt: "Suc i + length ps \<le> n" by simp_all
  let ?v = "15 + of_nat i * (80 / of_nat n) :: rat"
  let ?st = "updateProgress ?v st"
  have b: "below ?v ?st"
    using Cons.prems(1) order_refl image_value_bounds(1,3) [OF le] by (rule below_update)
  from b image_value_mono
  have b': "below (15 + of_nat (Suc i) * (80 / of_nat n)) ?st" by (rule below_mono)
  note ih = Cons.IH [OF b' nxt]
  note stop = below_mono [OF b image_value_bounds(2) [OF le]]
  show ?case
  proof (cases "i_cancelled_at env i")
    case True
    with below_mono [OF Cons.prems(1) image_value_bounds(2) [OF le]] show ?thesis by simp
  next
    case False
    with ih stop show ?thesis by (auto simp: Let_def split: outcome.split)
  qed
qed

lemma grid_loop_below:
  assumes "below (15 + of_nat i * (80 / of_nat n)) st" and "i + length groups \<le> n"
  shows "below 95 (fst (grid_loop env n groups i images st))"
  using assms
proof (induction groups arbitrary: i images st)
  case Nil
  then have "i \<le> n" by simp
  from below_mono [OF Nil.prems(1) image_value_bounds(2) [OF this]] show ?case by simp
next
  case (Cons g gs)
  then have le: "i \<le> n" and nxt: "Suc i + length gs \<le> n" by simp_all
  let ?v = "15 + of_nat i * (80 / of_nat n) :: rat"
  let ?st = "updateProgress ?v st"
  have b: "below ?v ?st"
    using Cons.prems(1) order_refl image_value_bounds(1,3) [OF le] by (rule below_update)
  from b image_value_mono
  have b': "below (15 + of_nat (Suc i) * (80 / of_nat n)) ?st" by (rule below_mono)
  note ih = Cons.IH [OF b' nxt]
  note stop = below_mono [OF b image_value_bounds(2) [OF le]]
  show ?case
  proof (cases "i_cancelled_at env i")
    case True
    with below_mono [OF Cons.prems(1) image_value_bounds(2) [OF le]] show ?thesis by simp
  next
    case False
    with ih stop show ?thesis by (auto simp: Let_def split: outcome.split)
  qed
qed

lemma image_finish_contract:
  assumes "below 95 (fst r)"
  shows "progress_contract (fst (image_finish r)) (snd (image_finish r))"
proof -
  obtain st res where r: "r = (st, res)" by (cases r)
  with assms have b: "below 95 st" by simp
  then have b95: "below 95 (updateProgress 95 st)" by (rule below_step) simp_all
  from r b b95 show ?thesis
    by (auto simp: image_finish_def Let_def contract_error [of 95] contract_success [of 95]
          split: sum.split)
qed

lemma image_process_contract:
  assumes "image_process env input = Some (st, out)"
  shows "progress_contract st out"
proof -
  have b0: "below 0 reset" by (rule below_reset)
  then have b5: "below 5 (updateProgress 5 reset)" by (rule below_step) simp_all
  then have b10: "below 10 (updateProgress 10 (updateProgress 5 reset))"
    by (rule below_step) simp_all
  then have b15: "below 15 (updateProgress 15 (updateProgress 10 (updateProgress 5 reset)))"
    by (rule below_step) simp_all
  let ?st = "updateProgress 15 (updateProgress 10 (updateProgress 5 reset))"
  have start: "below (15 + of_nat 0 * (80 / of_nat n)) ?st" for n
    using b15 by simp
  have single: "progress_contract st' out'"
    if "image_finish (single_loop env (length ps) ps 0 [] ?st) = (st', out')" for ps st' out'
  proof -
    have "below 95 (fst (single_loop env (length ps) ps 0 [] ?st))"
      by (rule single_loop_below, rule start) simp
    from image_finish_contract [OF this] that show ?thesis by simp
  qed
  have grid: "progress_contract st' out'"
    if "image_finish (grid_loop env (length gs) gs 0 [] ?st) = (st', out')" for gs st' out'
  proof -
    have "below 95 (fst (grid_loop env (length gs) gs 0 [] ?st))"
      by (rule grid_loop_below, rule start) simp
    from image_finish_contract [OF this] that show ?thesis by simp
  qed
  from assms show ?thesis
    using single grid
    by (auto simp: image_process_def Let_def contract_error [OF b0] contract_error [OF b5]
          contract_error [OF b10] simp del: nat_mult_eq_1_iff
          split: outcome.splits if_splits option.splits)
qed

lemma mark_scale:
  fixes r :: rat
  assumes "0 \<le> r" and "r \<le> 1"
  shows "0 \<le> 30 + 60 * r" and "30 + 60 * r \<le> 90" and "30 + 60 * r \<le> 100"
  using assms by auto

lemma mark_value_eq: "30 + 60 * of_nat i / of_nat n = (30 + 60 * (of_nat i / of_nat n) :: rat)"
  by simp

lemma mark_value_bounds:
  assumes "i \<le> n"
  shows "(0::rat) \<le> 30 + 60 * of_nat i / of_nat n"
    and "30 + 60 * of_nat i / of_nat n \<le> (90::rat)"
    and "30 + 60 * of_nat i / of_nat n \<le> (100::rat)"
proof -
  have z: "(0::rat) \<le> of_nat i / of_nat n" by simp
  note o = ratio_le_one [OF assms]
  show "(0::rat) \<le> 30 + 60 * of_nat i / of_nat n"
    unfolding mark_value_eq using z o by (rule mark_scale(1))
  show "30 + 60 * of_nat i / of_nat n \<le> (90::rat)"
    unfolding mark_value_eq using z o by (rule mark_scale(2))
  show "30 + 60 * of_nat i / of_nat n \<le> (100::rat)"
    unfolding mark_value_eq using z o by (rule mark_scale(3))
qed

lemma mark_value_mono: "30 + 60 * of_nat i / of_nat n \<le> (30 + 60 * of_nat (Suc i) / of_nat n :: rat)"
proof -
  have "60 * of_nat i / of_nat n \<le> (60 * of_nat (Suc i) / of_nat n :: rat)"
    by (rule divide_right_mono) simp_all
  then show ?thesis by (rule add_left_mono)
qed

lemma mark_value_next: "30 + 60 * (of_nat i + 1) / of_nat n = (30 + 60 * of_nat (Suc i) / of_nat n :: rat)"
  by (simp add: add.commute)

lemma watermark_loop_below:
  assumes "below (30 + 60 * of_nat i / of_nat n) st" and "i + length ps \<le> n"
  shows "below 90 (fst (watermark_loop env n ps i marked st))"
  using assms
proof (induction ps arbitrary: i marked st)
  case Nil
  then have "i \<le> n" by simp
  from below_mono [OF Nil.prems(1) mark_value_bounds(2) [OF this]] show ?case by simp
next
  case (Cons p ps)
  then have le: "i \<le> n" and le': "Suc i \<le> n" and nxt: "Suc i + length ps \<le> n" by simp_all
  let ?v = "30 + 60 * of_nat (Suc i) / of_nat n :: rat"
  let ?st = "updateProgress ?v st"
  have b: "below ?v ?st"
    using Cons.prems(1) mark_value_mono mark_value_bounds(1,3) [OF le'] by (rule below_update)
  note ih = Cons.IH [OF b nxt, of "marked @ [p]"]
  note stop = below_mono [OF Cons.prems(1) mark_value_bounds(2) [OF le]]
  show ?case
  proof (cases "w_cancelled_at env i")
    case True
    with stop show ?thesis by simp
  next
    case False
    show ?thesis
    proof (cases "w_draw env p")
      case (Throws m)
      with False stop show ?thesis by simp
    next
      case (Returns u)
      with False ih show ?thesis by (simp only: watermark_loop.simps mark_value_next) simp
    qed
  qed
qed

lemma watermark_process_contract:
  "progress_contract (fst (watermark_process env input)) (snd (watermark_process env input))"
proof -
  have b0: "below 0 reset" by (rule below_reset)
  then have b10: "below 10 (updateProgress 10 reset)" by (rule below_step) simp_all
  then have b20: "below 20 (updateProgress 20 (updateProgress 10 reset))"
    by (rule below_step) simp_all
  then have b30: "below 30 (updateProgress 30 (updateProgress 20 (updateProgress 10 reset)))"
    by (rule below_step) simp_all
  let ?st = "updateProgress 30 (updateProgress 20 (updateProgress 10 reset))"
  have start: "below (30 + 60 * of_nat 0 / of_nat n) ?st" for n
    using b30 by simp
  have lp: "below 90 (fst (watermark_loop env (length ps) ps 0 [] ?st))" for ps
    by (rule watermark_loop_below, rule start) simp
  have fin: "below 95 (updateProgress 95 (fst (watermark_loop env (length ps) ps 0 [] ?st)))" for ps
    using lp by (rule below_step) simp_all
  show ?thesis
  proof (cases "length (files input) \<noteq> 1")
    case True
    then show ?thesis by (simp add: watermark_process_def contract_error [OF b0])
  next
    case one: False
    show ?thesis
    proof (cases "w_loadPdfLib env")
      case (Throws m)
      with one show ?thesis by (simp add: watermark_process_def contract_error [OF b10])
    next
      case lib: (Returns u)
      show ?thesis
      proof (cases "w_load env")
        case (Throws m)
        with one lib show ?thesis by (simp add: watermark_process_def contract_error [OF b20])
      next
        case (Returns totalPages)
        let ?ps = "getPageIndices (options input) totalPages"
        obtain st1 r where l: "watermark_loop env (length ?ps) ?ps 0 [] ?st = (st1, r)"
          by (cases "watermark_loop env (length ?ps) ?ps 0 [] ?st")
        from lp [of ?ps] fin [of ?ps] l have b1: "below 90 st1"
          and b2: "below 95 (updateProgress 95 st1)" by simp_all
        from one lib Returns l b1 b2 show ?thesis
          by (auto simp: watermark_process_def Let_def contract_error [of 90]
                contract_error [of 95] contract_success [of 95]
                split: sum.split outcome.split)
      qed
    qed
  qed
qed

text \<open>The rasterize, PDF-to-image and watermark processors keep the progress contract on
  every input.\<close>

lemma in_process_processors_keep_progress_contract:
  "progress_contract (fst (rasterize_process renv rinput)) (snd (rasterize_process renv rinput))
   \<and> (image_process ienv iinput = Some (st, out) \<longrightarrow> progress_contract st out)
   \<and> progress_contract (fst (watermark_process wenv winput)) (snd (watermark_process wenv winput))"
  using rasterize_process_contract image_process_contract watermark_process_contract by blast

section \<open>Properties of the PDF-to-DOCX processor\<close>

text \<open>
  Claim C2.  The percentages reported during a successful call are to be non-decreasing and
  to end at 100.  A first successful call of the PDF-to-DOCX processor reports 10, then 0
  for each status message of the initialisation, then 30, then the worker's own 5, 10, 85,
  90, then 100; a later call on the initialised worker reports 10, 30, 5, 10, 85, 90, 100.
  Neither sequence is non-decreasing, so neither call keeps the progress contract that the
  in-process processors keep.
\<close>

theorem docx_progress_goes_back:
  "docx_process (docx_env_with python_ok) fresh_processor \<lparr>files = [report_pdf], options = ()\<rparr>
     = Some (ready_processor,
             \<lparr>progress = 100, reported = [10, 0, 0, 0, 0, 30, 5, 10, 85, 90, 100]\<rparr>,
             SuccessOutput ())
   \<and> \<not> sorted [10, 0, 0, 0, 0, 30, 5, 10, 85, 90, 100 :: rat]
   \<and> \<not> progress_contract \<lparr>progress = 100, reported = [10, 0, 0, 0, 0, 30, 5, 10, 85, 90, 100]\<rparr>
          (SuccessOutput ())
   \<and> docx_process (docx_env_with python_ok) ready_processor \<lparr>files = [report_pdf], options = ()\<rparr>
     = Some (ready_processor, \<lparr>progress = 100, reported = [10, 30, 5, 10, 85, 90, 100]\<rparr>,
             SuccessOutput ())
   \<and> \<not> sorted [10, 30, 5, 10, 85, 90, 100 :: rat]
   \<and> \<not> progress_contract \<lparr>progress = 100, reported = [10, 30, 5, 10, 85, 90, 100]\<rparr>
          (SuccessOutput ())"
  by code_simp

text \<open>A successful call of the PDF-to-DOCX processor does end at 100.\<close>

lemma docx_success_ends_at_100:
  assumes "docx_process env proc input = Some (proc', st', SuccessOutput u)"
  shows "reported st' \<noteq> [] \<and> last (reported st') = 100"
  using assms
  by (auto simp: docx_process_def docx_convert_def Let_def updateProgress_def
        split: if_splits option.splits prod.splits outcome.splits)

lemma convert_events_rejects_on_error:
  assumes "list_all non_terminal pre" and "is_error_for msgId t"
  shows "\<exists>st' ready' err.
     convert_events msgId (map MessageEvent (pre @ [t]) @ rest) st ready
       = Some (st', ready', Throws err)"
  using assms
proof (induction pre arbitrary: st ready)
  case Nil
  then show ?case by (cases t) simp_all
next
  case (Cons msg pre)
  from Cons.prems have nt: "non_terminal msg" and pre: "list_all non_terminal pre" by simp_all
  from nt show ?case
  proof (cases msg)
    case Status
    with Cons.IH [OF pre Cons.prems(2)] show ?thesis by simp
  next
    case (Progress percent)
    with Cons.IH [OF pre Cons.prems(2)] show ?thesis by simp
  qed simp_all
qed

lemma convert_events_rejects_on_transport_failure:
  assumes "list_all non_terminal pre"
  shows "\<exists>st' ready' err.
     convert_events msgId (map MessageEvent pre @ ErrorEvent m # rest) st ready
       = Some (st', ready', Throws err)"
  using assms
proof (induction pre arbitrary: st ready)
  case Nil
  show ?case by simp
next
  case (Cons msg pre)
  from Cons.prems have nt: "non_terminal msg" and pre: "list_all non_terminal pre" by simp_all
  from nt show ?case
  proof (cases msg)
    case Status
    with Cons.IH [OF pre] show ?thesis by simp
  next
    case (Progress percent)
    with Cons.IH [OF pre] show ?thesis by simp
  qed simp_all
qed

lemma docx_convert_rejected:
  assumes "worker proc = Some w"
    and "worker_onmessage (d_python env) w (Convert (d_msgId env)) = (posted, w')"
    and "convert_events (d_msgId env) (deliver (d_convert_failure env) posted)
           (updateProgress 30 st) (workerReady proc) = Some (st', ready', Throws err)"
  shows "docx_convert env proc st
     = Some (\<lparr>worker = None, workerReady = False\<rparr>, st', ErrorOutput PROCESSING_FAILED)"
  using assms by (simp add: docx_convert_def Let_def terminateWorker_def)

lemma docx_convert_application_error:
  assumes "worker proc = Some w"
    and "worker_onmessage (d_python env) w (Convert (d_msgId env)) = (posted, w')"
    and "d_convert_failure env = None"
    and "application_error_answer (d_msgId env) posted"
  shows "map_option fst (docx_convert env proc st) = Some \<lparr>worker = None, workerReady = False\<rparr>
       \<and> map_option (snd \<circ> snd) (docx_convert env proc st) = Some (ErrorOutput PROCESSING_FAILED)"
proof -
  from assms(4) have ne: "posted \<noteq> []" and pre: "list_all non_terminal (butlast posted)"
    and t: "is_error_for (d_msgId env) (last posted)"
    by (simp_all add: application_error_answer_def)
  from ne have sp: "posted = butlast posted @ [last posted]" by simp
  from convert_events_rejects_on_error [OF pre t, of "[]" "updateProgress 30 st" "workerReady proc"]
  obtain st' ready' err where
    "convert_events (d_msgId env) (map MessageEvent (butlast posted @ [last posted]))
       (updateProgress 30 st) (workerReady proc) = Some (st', ready', Throws err)"
    by auto
  with sp assms(3) have "convert_events (d_msgId env) (deliver (d_convert_failure env) posted)
       (updateProgress 30 st) (workerReady proc) = Some (st', ready', Throws err)"
    by (simp add: deliver_def)
  from docx_convert_rejected [OF assms(1,2) this] show ?thesis by simp
qed

lemma docx_convert_transport_failure:
  assumes "worker proc = Some w"
    and "worker_onmessage (d_python env) w (Convert (d_msgId env)) = (posted, w')"
    and "d_convert_failure env = Some (k, m)"
    and "list_all non_terminal (take k posted)"
  shows "map_option fst (docx_convert env proc st) = Some \<lparr>worker = None, workerReady = False\<rparr>
       \<and> map_option (snd \<circ> snd) (docx_convert env proc st) = Some (ErrorOutput PROCESSING_FAILED)"
proof -
  from convert_events_rejects_on_transport_failure [OF assms(4), of "d_msgId env" m "[]"
      "updateProgress 30 st" "workerReady proc"]
  obtain st' ready' err where
    "convert_events (d_msgId env) (map MessageEvent (take k posted) @ [ErrorEvent m])
       (updateProgress 30 st) (workerReady proc) = Some (st', ready', Throws err)"
    by auto
  with assms(3) have "convert_events (d_msgId env) (deliver (d_convert_failure env) posted)
       (updateProgress 30 st) (workerReady proc) = Some (st', ready', Throws err)"
    by (simp add: deliver_def)
  from docx_convert_rejected [OF assms(1,2) this] show ?thesis by simp
qed

lemma docx_convert_failed_no_worker:
  assumes "docx_convert env proc st = Some (proc', st', ErrorOutput PROCESSING_FAILED)"
  shows "worker proc' = None"
  using assms
  by (auto simp: docx_convert_def Let_def terminateWorker_def
           split: option.splits prod.splits outcome.splits if_splits)

lemma docx_convert_success_keeps_worker:
  assumes "docx_convert env proc st = Some (proc', st', SuccessOutput u)"
  shows "worker proc' \<noteq> None"
  using assms
  by (auto simp: docx_convert_def Let_def terminateWorker_def
           split: option.splits prod.splits outcome.splits if_splits)

lemma docx_process_failed_no_worker:
  assumes "docx_process env proc input = Some (proc', st', ErrorOutput PROCESSING_FAILED)"
  shows "worker proc' = None"
  using assms docx_convert_failed_no_worker
  by (auto simp: docx_process_def Let_def
           split: option.splits prod.splits outcome.splits if_splits)

lemma docx_process_success_keeps_worker:
  assumes "docx_process env proc input = Some (proc', st', SuccessOutput u)"
  shows "worker proc' \<noteq> None"
  using assms docx_convert_success_keeps_worker
  by (auto simp: docx_process_def Let_def
           split: option.splits prod.splits outcome.splits if_splits)

lemma worker_convert_shape:
  "worker_convert py ws rid \<noteq> []
   \<and> list_all non_terminal (butlast (worker_convert py ws rid))
   \<and> (last (worker_convert py ws rid) = ConvertComplete rid
       \<or> is_error_for rid (last (worker_convert py ws rid)))"
  by (simp add: worker_convert_def split: outcome.split)

lemma worker_init_statuses: "list_all non_terminal (fst (worker_init py ws))"
  by (simp add: worker_init_def Let_def split: outcome.split)

lemma await_init_statuses: "list_all non_terminal (fst (await_init py ws))"
  using worker_init_statuses [of py ws]
  by (auto simp: await_init_def split: option.split prod.split)

lemma worker_answer_shape:
  assumes "worker_onmessage py ws (Convert rid) = (posted, ws')"
  shows "posted \<noteq> [] \<and> list_all non_terminal (butlast posted)
       \<and> (last posted = ConvertComplete rid \<or> is_error_for rid (last posted))"
proof -
  obtain pre ws1 r where ai:
    "(if \<not> pyodide ws then await_init py ws else ([], ws, Returns ())) = (pre, ws1, r)"
    by (cases "if \<not> pyodide ws then await_init py ws else ([], ws, Returns ())") auto
  have pre: "list_all non_terminal pre"
    using ai await_init_statuses [of py ws] by (auto split: if_splits)
  show ?thesis
  proof (cases r)
    case (Throws m)
    with ai assms have "posted = pre @ [ErrorMsg rid m]"
      by (auto simp: worker_onmessage_def)
    with pre show ?thesis by (simp add: butlast_append)
  next
    case (Returns u)
    with ai assms have p: "posted = pre @ worker_convert py ws1 rid"
      by (auto simp: worker_onmessage_def)
    note s = worker_convert_shape [of py ws1 rid]
    from s have ne: "worker_convert py ws1 rid \<noteq> []" by blast
    with p pre s show ?thesis by (simp add: butlast_append)
  qed
qed

lemma docx_process_after_init:
  assumes "length (files input) = 1" and "looks_like_pdf (files input ! 0)"
    and "initWorker env proc (updateProgress 10 reset) = Some (proc1, st1, Returns ())"
    and "\<not> d_cancelled_ready env"
  shows "docx_process env proc input = docx_convert env proc1 st1"
  using assms by (simp add: docx_process_def Let_def)

lemma docx_convert_other_keeps_worker:
  assumes "docx_convert env proc st = Some (proc', st', out)"
    and "out \<noteq> ErrorOutput PROCESSING_FAILED"
  shows "worker proc' \<noteq> None"
  using assms
  by (auto simp: docx_convert_def Let_def terminateWorker_def
           split: option.splits prod.splits outcome.splits if_splits)

lemma initWorker_with_worker:
  assumes "worker proc = Some w"
  shows "initWorker env proc st = Some (proc, st, Returns ())"
  using assms by (simp add: initWorker_def)

lemma docx_process_other_keeps_worker:
  assumes run: "docx_process env proc input = Some (proc', st', out)"
    and other: "out \<noteq> ErrorOutput PROCESSING_FAILED" and held: "worker proc \<noteq> None"
  shows "worker proc' \<noteq> None"
proof -
  from held obtain w where w: "worker proc = Some w" by auto
  note ini = initWorker_with_worker [OF w, of env "updateProgress 10 reset"]
  show ?thesis
  proof (cases "length (files input) = 1 \<and> looks_like_pdf (files input ! 0)
      \<and> \<not> d_cancelled_ready env")
    case True
    with ini have "docx_process env proc input = docx_convert env proc (updateProgress 10 reset)"
      by (simp add: docx_process_def Let_def)
    with run other show ?thesis
      using docx_convert_other_keeps_worker by metis
  next
    case False
    with run ini have "proc' = proc"
      by (auto simp: docx_process_def Let_def split: if_splits)
    with held show ?thesis by simp
  qed
qed

lemma non_terminal_before_failure:
  assumes "list_all non_terminal (butlast posted)" and "k < length posted"
  shows "list_all non_terminal (take k posted)"
proof -
  from assms(2) have "take k posted = take k (butlast posted)"
    by (simp add: take_butlast)
  moreover have "set (take k (butlast posted)) \<subseteq> set (butlast posted)"
    by (rule set_take_subset)
  ultimately show ?thesis using assms(1) by (auto simp: list_all_iff)
qed

text \<open>
  Claim C6, as stated: an application-level \<open>error\<close> message fails only the request and
  leaves the worker alive for the next call.  It fails: when the initialised worker answers
  the conversion by an \<open>error\<close> message with the request's id, the call resolves with
  \<open>PROCESSING_FAILED\<close> and the processor's worker is \<open>null\<close> afterwards.
\<close>

theorem docx_application_error_counterexample:
  "fst (worker_onmessage (python_ok\<lparr>k_pdf_convert := Throws ''cannot open broken document''\<rparr>)
          (the (worker ready_processor)) (Convert ''convert-1700000000500''))
     = [Progress (Some 5), Progress (Some 10),
        ErrorMsg ''convert-1700000000500'' ''cannot open broken document'']
   \<and> docx_process (docx_env_with (python_ok\<lparr>k_pdf_convert := Throws ''cannot open broken document''\<rparr>))
        ready_processor \<lparr>files = [report_pdf], options = ()\<rparr>
     = Some (\<lparr>worker = None, workerReady = False\<rparr>,
             \<lparr>progress = 10, reported = [10, 30, 5, 10]\<rparr>, ErrorOutput PROCESSING_FAILED)"
  by code_simp

text \<open>
  Claim C6, amended.  Take a call with one PDF file in which \<open>initWorker\<close> has resolved,
  whether the processor held its worker before the call or the call itself created and
  initialised it, and which is not cancelled at that point.  When the worker answers the
  conversion request with an application-level \<open>error\<close> message, as when the channel itself
  fails before the answer is complete, the call resolves with \<open>PROCESSING_FAILED\<close> and the
  worker is terminated: \<open>worker\<close> is \<open>null\<close> and \<open>workerReady\<close> is \<open>false\<close> afterwards,
  the state of a newly constructed processor, so the next call starts as a first call
  does.  Every call that resolves with
  \<open>PROCESSING_FAILED\<close> leaves the processor without a worker.  A call on a processor that
  holds a worker and resolves with any other envelope (success, \<open>PROCESSING_CANCELLED\<close>, or
  a validation error) leaves it holding a worker, and so does every call that succeeds.
\<close>

theorem worker_terminated_by_failed_conversion:
  "(length (files input) = 1 \<and> looks_like_pdf (files input ! 0)
      \<and> initWorker env proc (updateProgress 10 reset) = Some (proc1, st1, Returns ())
      \<and> \<not> d_cancelled_ready env \<and> worker proc1 = Some w
      \<and> worker_onmessage (d_python env) w (Convert (d_msgId env)) = (posted, w')
      \<and> ((d_convert_failure env = None \<and> is_error_for (d_msgId env) (last posted))
         \<or> (d_convert_failure env = Some (k, m) \<and> k < length posted))
    \<longrightarrow> map_option fst (docx_process env proc input) = Some \<lparr>worker = None, workerReady = False\<rparr>
       \<and> map_option (snd \<circ> snd) (docx_process env proc input)
           = Some (ErrorOutput PROCESSING_FAILED))
   \<and> (docx_process env proc input = Some (proc', st', ErrorOutput PROCESSING_FAILED)
    \<longrightarrow> worker proc' = None)
   \<and> (docx_process env proc input = Some (proc', st', out)
      \<and> out \<noteq> ErrorOutput PROCESSING_FAILED \<and> worker proc \<noteq> None
    \<longrightarrow> worker proc' \<noteq> None)
   \<and> (docx_process env proc input = Some (proc', st', SuccessOutput ())
    \<longrightarrow> worker proc' \<noteq> None)
   \<and> fresh_processor = \<lparr>worker = None, workerReady = False\<rparr>"
proof (intro conjI impI)
  assume h: "length (files input) = 1 \<and> looks_like_pdf (files input ! 0)
      \<and> initWorker env proc (updateProgress 10 reset) = Some (proc1, st1, Returns ())
      \<and> \<not> d_cancelled_ready env \<and> worker proc1 = Some w
      \<and> worker_onmessage (d_python env) w (Convert (d_msgId env)) = (posted, w')
      \<and> ((d_convert_failure env = None \<and> is_error_for (d_msgId env) (last posted))
         \<or> (d_convert_failure env = Some (k, m) \<and> k < length posted))"
  then have one: "length (files input) = 1" and pdf: "looks_like_pdf (files input ! 0)"
    and ini: "initWorker env proc (updateProgress 10 reset) = Some (proc1, st1, Returns ())"
    and nc: "\<not> d_cancelled_ready env" and w: "worker proc1 = Some w"
    and ans: "worker_onmessage (d_python env) w (Convert (d_msgId env)) = (posted, w')"
    by blast+
  note shape = worker_answer_shape [OF ans]
  note reach = docx_process_after_init [OF one pdf ini nc]
  from h have "(d_convert_failure env = None \<and> is_error_for (d_msgId env) (last posted))
      \<or> (d_convert_failure env = Some (k, m) \<and> k < length posted)"
    by blast
  then have both:
    "map_option fst (docx_convert env proc1 st1) = Some \<lparr>worker = None, workerReady = False\<rparr>
     \<and> map_option (snd \<circ> snd) (docx_convert env proc1 st1) = Some (ErrorOutput PROCESSING_FAILED)"
  proof
    assume a: "d_convert_failure env = None \<and> is_error_for (d_msgId env) (last posted)"
    with shape have "application_error_answer (d_msgId env) posted"
      by (simp add: application_error_answer_def)
    with a show ?thesis
      by (intro docx_convert_application_error [OF w ans]) simp_all
  next
    assume a: "d_convert_failure env = Some (k, m) \<and> k < length posted"
    with shape have "list_all non_terminal (take k posted)"
      by (intro non_terminal_before_failure) simp_all
    with a show ?thesis
      by (intro docx_convert_transport_failure [OF w ans]) simp_all
  qed
  from both show "map_option fst (docx_process env proc input)
      = Some \<lparr>worker = None, workerReady = False\<rparr>"
    unfolding reach by blast
  from both show "map_option (snd \<circ> snd) (docx_process env proc input)
      = Some (ErrorOutput PROCESSING_FAILED)"
    unfolding reach by blast
next
  assume "docx_process env proc input = Some (proc', st', ErrorOutput PROCESSING_FAILED)"
  then show "worker proc' = None" by (rule docx_process_failed_no_worker)
next
  assume "docx_process env proc input = Some (proc', st', out)
      \<and> out \<noteq> ErrorOutput PROCESSING_FAILED \<and> worker proc \<noteq> None"
  then show "worker proc' \<noteq> None"
    using docx_process_other_keeps_worker by blast
next
  assume "docx_process env proc input = Some (proc', st', SuccessOutput ())"
  then show "worker proc' \<noteq> None" by (rule docx_process_success_keeps_worker)
next
  show "fresh_processor = \<lparr>worker = None, workerReady = False\<rparr>"
    by (simp add: fresh_processor_def)
qed

theorem worker_terminated_by_failed_conversion_witness:
  "worker fresh_processor = None
   \<and> initWorker (docx_env_with (python_ok\<lparr>k_pdf_convert := Throws ''cannot open broken document''\<rparr>))
        fresh_processor (updateProgress 10 reset)
       = Some (ready_processor, \<lparr>progress = 0, reported = [10, 0, 0, 0, 0]\<rparr>, Returns ())
   \<and> fst (worker_onmessage (python_ok\<lparr>k_pdf_convert := Throws ''cannot open broken document''\<rparr>)
          \<lparr>pyodide = True, initPromise = Some (Returns ()), helpers = True\<rparr>
          (Convert ''convert-1700000000500''))
       = [Progress (Some 5), Progress (Some 10),
          ErrorMsg ''convert-1700000000500'' ''cannot open broken document'']
   \<and> docx_process (docx_env_with (python_ok\<lparr>k_pdf_convert := Throws ''cannot open broken document''\<rparr>))
        fresh_processor \<lparr>files = [report_pdf], options = ()\<rparr>
       = Some (\<lparr>worker = None, workerReady = False\<rparr>,
               \<lparr>progress = 10, reported = [10, 0, 0, 0, 0, 30, 5, 10]\<rparr>,
               ErrorOutput PROCESSING_FAILED)
   \<and> map_option fst
        (docx_process ((docx_env_with python_ok)\<lparr>d_convert_failure := Some (1, ''script error'')\<rparr>)
           ready_processor \<lparr>files = [report_pdf], options = ()\<rparr>)
       = Some \<lparr>worker = None, workerReady = False\<rparr>
   \<and> map_option (snd \<circ> snd)
        (docx_process ((docx_env_with python_ok)\<lparr>d_convert_failure := Some (1, ''script error'')\<rparr>)
           ready_processor \<lparr>files = [report_pdf], options = ()\<rparr>)
       = Some (ErrorOutput PROCESSING_FAILED)
   \<and> docx_process ((docx_env_with python_ok)\<lparr>d_cancelled_converted := True\<rparr>)
        ready_processor \<lparr>files = [report_pdf], options = ()\<rparr>
       = Some (ready_processor, \<lparr>progress = 90, reported = [10, 30, 5, 10, 85, 90]\<rparr>,
               ErrorOutput PROCESSING_CANCELLED)
   \<and> docx_process (docx_env_with python_ok) fresh_processor \<lparr>files = [report_pdf], options = ()\<rparr>
       = Some (ready_processor,
               \<lparr>progress = 100, reported = [10, 0, 0, 0, 0, 30, 5, 10, 85, 90, 100]\<rparr>,
               SuccessOutput ())
   \<and> worker ready_processor \<noteq> None"
proof -
  let ?py = "python_ok\<lparr>k_pdf_convert := Throws ''cannot open broken document''\<rparr>"
  let ?env = "docx_env_with ?py"
  let ?w = "\<lparr>pyodide = True, initPromise = Some (Returns ()), helpers = True\<rparr>"
  let ?input = "\<lparr>files = [report_pdf], options = ()\<rparr>"
  let ?posted = "[Progress (Some 5), Progress (Some 10),
     ErrorMsg ''convert-1700000000500'' ''cannot open broken document'']"
  let ?down = "\<lparr>worker = None, workerReady = False\<rparr>"
  let ?st1 = "\<lparr>progress = 0, reported = [10, 0, 0, 0, 0]\<rparr>"
  let ?st = "\<lparr>progress = 10, reported = [10, 0, 0, 0, 0, 30, 5, 10]\<rparr>"
  have fr: "worker fresh_processor = None" by (simp add: fresh_processor_def)
  have w: "worker ready_processor = Some ?w" by (simp add: ready_processor_def)
  have pdf: "looks_like_pdf report_pdf" by code_simp

  note t = worker_terminated_by_failed_conversion [of ?input ?env fresh_processor
      ready_processor ?st1 ?w ?posted ?w 0 "[]" ?down ?st "ErrorOutput PROCESSING_FAILED"]
  have ini: "initWorker ?env fresh_processor (updateProgress 10 reset)
      = Some (ready_processor, ?st1, Returns ())"
    by code_simp
  have ans: "worker_onmessage ?py ?w (Convert ''convert-1700000000500'') = (?posted, ?w)"
    by code_simp
  have envf: "\<not> d_cancelled_ready ?env \<and> d_python ?env = ?py
      \<and> d_msgId ?env = ''convert-1700000000500'' \<and> d_convert_failure ?env = None"
    by (simp add: docx_env_with_def)
  have h: "length (files ?input) = 1 \<and> looks_like_pdf (files ?input ! 0)
      \<and> initWorker ?env fresh_processor (updateProgress 10 reset)
          = Some (ready_processor, ?st1, Returns ())
      \<and> \<not> d_cancelled_ready ?env \<and> worker ready_processor = Some ?w
      \<and> worker_onmessage (d_python ?env) ?w (Convert (d_msgId ?env)) = (?posted, ?w)
      \<and> ((d_convert_failure ?env = None \<and> is_error_for (d_msgId ?env) (last ?posted))
         \<or> (d_convert_failure ?env = Some (0, []) \<and> 0 < length ?posted))"
    using w ans pdf ini envf by simp
  have run: "docx_process ?env fresh_processor ?input
      = Some (?down, ?st, ErrorOutput PROCESSING_FAILED)"
    by code_simp
  from t h have a: "map_option fst (docx_process ?env fresh_processor ?input) = Some ?down
      \<and> map_option (snd \<circ> snd) (docx_process ?env fresh_processor ?input)
        = Some (ErrorOutput PROCESSING_FAILED)"
    by blast
  from t run have a': "worker ?down = None" by blast

  let ?env2 = "(docx_env_with python_ok)\<lparr>d_convert_failure := Some (1, ''script error'')\<rparr>"
  let ?posted2 = "[Progress (Some 5), Progress (Some 10), Progress (Some 85), Progress (Some 90),
     ConvertComplete ''convert-1700000000500'']"
  let ?st10 = "\<lparr>progress = 10, reported = [10]\<rparr>"
  note t2 = worker_terminated_by_failed_conversion [of ?input ?env2 ready_processor
      ready_processor ?st10 ?w ?posted2 ?w 1 "''script error''" ?down ?st
      "ErrorOutput PROCESSING_FAILED"]
  have ini2: "initWorker ?env2 ready_processor (updateProgress 10 reset)
      = Some (ready_processor, ?st10, Returns ())"
    by code_simp
  have ans2: "worker_onmessage python_ok ?w (Convert ''convert-1700000000500'') = (?posted2, ?w)"
    by code_simp
  have envf2: "\<not> d_cancelled_ready ?env2 \<and> d_python ?env2 = python_ok
      \<and> d_msgId ?env2 = ''convert-1700000000500''
      \<and> d_convert_failure ?env2 = Some (1, ''script error'')"
    by (simp add: docx_env_with_def)
  have h2: "length (files ?input) = 1 \<and> looks_like_pdf (files ?input ! 0)
      \<and> initWorker ?env2 ready_processor (updateProgress 10 reset)
          = Some (ready_processor, ?st10, Returns ())
      \<and> \<not> d_cancelled_ready ?env2 \<and> worker ready_processor = Some ?w
      \<and> worker_onmessage (d_python ?env2) ?w (Convert (d_msgId ?env2)) = (?posted2, ?w)
      \<and> ((d_convert_failure ?env2 = None \<and> is_error_for (d_msgId ?env2) (last ?posted2))
         \<or> (d_convert_failure ?env2 = Some (1, ''script error'') \<and> 1 < length ?posted2))"
    using w ans2 pdf ini2 envf2 by simp
  from t2 h2 have b: "map_option fst (docx_process ?env2 ready_processor ?input) = Some ?down
      \<and> map_option (snd \<circ> snd) (docx_process ?env2 ready_processor ?input)
        = Some (ErrorOutput PROCESSING_FAILED)"
    by blast

  let ?env3 = "(docx_env_with python_ok)\<lparr>d_cancelled_converted := True\<rparr>"
  let ?st3 = "\<lparr>progress = 90, reported = [10, 30, 5, 10, 85, 90]\<rparr>"
  note t3 = worker_terminated_by_failed_conversion [of ?input ?env3 ready_processor
      ready_processor ?st10 ?w ?posted2 ?w 0 "[]" ready_processor ?st3
      "ErrorOutput PROCESSING_CANCELLED"]
  have run3: "docx_process ?env3 ready_processor ?input
      = Some (ready_processor, ?st3, ErrorOutput PROCESSING_CANCELLED)"
    by code_simp
  have oth: "ErrorOutput PROCESSING_CANCELLED \<noteq> (ErrorOutput PROCESSING_FAILED :: unit ProcessOutput)
      \<and> worker ready_processor \<noteq> None"
    using w by simp
  from t3 run3 oth have c: "worker ready_processor \<noteq> None" by blast

  let ?st4 = "\<lparr>progress = 100, reported = [10, 0, 0, 0, 0, 30, 5, 10, 85, 90, 100]\<rparr>"
  note t4 = worker_terminated_by_failed_conversion [of ?input "docx_env_with python_ok"
      fresh_processor ready_processor ?st1 ?w ?posted2 ?w 0 "[]" ready_processor ?st4
      "SuccessOutput ()"]
  have ok: "docx_process (docx_env_with python_ok) fresh_processor ?input
      = Some (ready_processor, ?st4, SuccessOutput ())"
    by code_simp
  with t4 have d: "worker ready_processor \<noteq> None" by blast
  from ans have ans': "fst (worker_onmessage ?py ?w (Convert ''convert-1700000000500'')) = ?posted"
    by simp
  from fr ini ans' run b run3 ok d show ?thesis by blast
qed

end
